theory Spec2Isabelle
  imports Main
begin

section \<open>Playback synchronisation and command dispatch of the renderer\<close>

text \<open>
  The development embeds the playback core of \<^verbatim>\<open>src/renderer.js\<close>: the module-level
  variables (lines 3-23), the status helpers (44-88), the poller and its interpolation
  timer (127-191), the device resolver (195-203), \<^verbatim>\<open>playTrack\<close> (205-234),
  \<^verbatim>\<open>togglePlayPause\<close> (236-273), the SDK listeners (286-291) and the two bar
  updaters (344-371).

  JavaScript runs these functions on one thread. An \<^verbatim>\<open>async\<close> function runs
  synchronously up to its first \<^verbatim>\<open>await\<close> and is resumed later with the outcome of the
  awaited promise. Each such function is therefore split into the part that runs at the
  call and the part that runs at the resumption; the values the closure keeps across the
  suspension are a frame stored in the state. The outcome of an awaited remote call is an
  input of the resumption: \<open>Inl msg\<close> for a rejection with \<^verbatim>\<open>err.message = msg\<close>,
  \<open>Inr v\<close> for a value. \<^verbatim>\<open>Date.now()\<close> is an input of the part that reads it.
  Times and positions are integral milliseconds, modelled as \<open>int\<close>.

  Of the page, the model keeps what these functions write: the status line, which belongs
  to the static page; the elements of the logged-in playback bar, which
  \<^verbatim>\<open>renderBarLoggedIn\<close> creates together (lines 311-338), so that one flag says whether
  \<^verbatim>\<open>getElementById\<close> finds them; and the track cards. Login and logout, which replace the
  bar, are not events of the model. \<^verbatim>\<open>spotifyFetch\<close> (lines 103-118) is the boundary to
  the remote service: a request counts as made when it is handed to \<^verbatim>\<open>spotifyFetch\<close>,
  which rejects with \<^verbatim>\<open>Not authenticated\<close> when it has no token and otherwise sends it.
  \<^verbatim>\<open>spotifyPlayer.togglePlay()\<close> returns its promise without throwing.
\<close>

subsection \<open>Data\<close>

text \<open>The two texts of a play button: \<open>PlayGlyph\<close> is the triangle shown while paused,
  \<open>PauseGlyph\<close> the double bar shown while playing.\<close>

datatype glyph = PlayGlyph | PauseGlyph

text \<open>What a timer of the page runs when it fires: the poller (\<^verbatim>\<open>setInterval\<close>, line 130),
  the interpolation tick (line 177), the supplementary poll of \<^verbatim>\<open>playTrack\<close>
  (\<^verbatim>\<open>setTimeout\<close>, line 222) and the delayed clearing of a status message (line 49).\<close>

datatype callback = PollCb | ProgressCb | PollOnceCb | StatusClearCb string

record device =
  dev_id :: string
  is_active :: bool

record track_item =
  track_id :: string
  track_name :: string
  artists :: "string list"
  duration_ms :: "int option"

record player_state =
  item :: "track_item option"
  is_playing :: bool
  progress_ms :: "int option"

record sdk_state =
  current_track_id :: "string option"
  paused :: bool

record card =
  card_id :: string
  card_playing :: bool
  card_btn :: "glyph option"

datatype panel = IdlePanel | TrackPanel string string

text \<open>Requests that leave the renderer: the two resume/pause calls and the direct SDK
  toggle of \<^verbatim>\<open>togglePlayPause\<close>, and the play call of \<^verbatim>\<open>playTrack\<close> with its device
  and track.\<close>

datatype command = PlayCmd | PauseCmd | SdkToggleCmd | PlayTrackCmd string string

text \<open>What \<^verbatim>\<open>togglePlayPause\<close> keeps across its \<^verbatim>\<open>await\<close>: \<^verbatim>\<open>now\<close>, \<^verbatim>\<open>prevPaused\<close>
  and whether \<^verbatim>\<open>ppBtn\<close> was found.\<close>

record toggle_frame =
  tf_now :: int
  tf_prevPaused :: bool
  tf_ppBtn :: bool

text \<open>\<^verbatim>\<open>playTrack\<close> suspends twice: on the device resolver (which has read
  \<^verbatim>\<open>sdkDeviceId\<close> at the call) and on the play request.\<close>

datatype play_frame = AwaitDevice string "string option" | AwaitPlay

record state =
  \<comment> \<open>module variables, lines 3-23\<close>
  spotifyPlayer :: bool
  sdkDeviceId :: "string option"
  progressTimer :: "nat option"
  pollInterval :: "nat option"
  djTracks :: "(string \<times> int option) list"
  pollSyncPos :: int
  pollSyncAt :: int
  pollDuration :: int
  lastTrackId :: "string option"
  lastPaused :: bool
  playbackCommandPending :: bool
  lastPlaybackCommandTime :: int
  playTrackPending :: bool
  lastPlayTrackTime :: int
  \<comment> \<open>the page: status line, playback bar (its elements exist together, lines 311-338), cards\<close>
  statusText :: string
  statusClass :: string
  barLoggedIn :: bool
  nowPlaying :: panel
  barCenterHidden :: bool
  progressEl :: "(int \<times> int) option"
  barBpm :: "int option"
  ppBtnDisabled :: bool
  ppBtnText :: glyph
  cards :: "card list"
  \<comment> \<open>the timers of the page and the suspended invocations\<close>
  timers :: "(nat \<times> callback) list"
  nextTimerId :: nat
  toggleFrames :: "toggle_frame list"
  playFrames :: "play_frame list"
  \<comment> \<open>history, read by no code: the requests handed to \<^verbatim>\<open>spotifyFetch\<close> or to the SDK,
      the pairs the interpolation tick handed to \<^verbatim>\<open>updateProgressEl\<close>, and the clock
      reading at which the last \<^verbatim>\<open>playTrack\<close> invocation returned\<close>
  issued :: "command list"
  emitted :: "(int \<times> int) list"
  playTrackReturnedAt :: "int option"

subsection \<open>JavaScript helpers\<close>

text \<open>Truthiness of a value that is \<^verbatim>\<open>null\<close> or a string: the empty string is falsy.\<close>

definition truthy :: "string option \<Rightarrow> bool" where
  "truthy v = (case v of None \<Rightarrow> False | Some x \<Rightarrow> x \<noteq> [])"

fun starts_with :: "string \<Rightarrow> string \<Rightarrow> bool" where
  "starts_with s [] = True"
| "starts_with [] (p # ps) = False"
| "starts_with (c # cs) (p # ps) = (c = p \<and> starts_with cs ps)"

text \<open>\<^verbatim>\<open>s.includes(p)\<close>: \<open>p\<close> occurs in \<open>s\<close> as a contiguous run.\<close>

fun str_includes :: "string \<Rightarrow> string \<Rightarrow> bool" where
  "str_includes [] p = (p = [])"
| "str_includes (c # cs) p = (starts_with (c # cs) p \<or> str_includes cs p)"

text \<open>\<^verbatim>\<open>toLowerCase\<close> on the ASCII letters; the patterns searched for are ASCII.\<close>

definition lower_char :: "char \<Rightarrow> char" where
  "lower_char c =
     (let n = (of_char c :: nat) in if 65 \<le> n \<and> n \<le> 90 then char_of (n + 32) else c)"

definition toLowerCase :: "string \<Rightarrow> string" where
  "toLowerCase s = map lower_char s"

definition replace_all :: "char \<Rightarrow> string \<Rightarrow> string \<Rightarrow> string" where
  "replace_all c r s = concat (map (\<lambda>x. if x = c then r else [x]) s)"

definition esc :: "string \<Rightarrow> string" where
  "esc str =
     replace_all (CHR 0x22) ''&quot;''
       (replace_all CHR ''>'' ''&gt;''
         (replace_all CHR ''<'' ''&lt;''
           (replace_all CHR ''&'' ''&amp;'' str)))"

fun join :: "string \<Rightarrow> string list \<Rightarrow> string" where
  "join sep [] = []"
| "join sep [x] = x"
| "join sep (x # y # ys) = x @ sep @ join sep (y # ys)"

fun find_first :: "('a \<Rightarrow> bool) \<Rightarrow> 'a list \<Rightarrow> 'a option" where
  "find_first P [] = None"
| "find_first P (x # xs) = (if P x then Some x else find_first P xs)"

definition glyph_of :: "bool \<Rightarrow> glyph" where
  "glyph_of isPaused = (if isPaused then PlayGlyph else PauseGlyph)"

subsection \<open>Timers\<close>

definition setTimer :: "callback \<Rightarrow> state \<Rightarrow> nat \<times> state" where
  "setTimer cb s =
     (nextTimerId s,
      s\<lparr>timers := timers s @ [(nextTimerId s, cb)], nextTimerId := Suc (nextTimerId s)\<rparr>)"

text \<open>\<^verbatim>\<open>clearInterval(h)\<close>: a handle that is \<^verbatim>\<open>null\<close> or names no live timer clears
  nothing. The variable that held the handle keeps it.\<close>

definition clearInterval :: "nat option \<Rightarrow> state \<Rightarrow> state" where
  "clearInterval h s =
     (case h of None \<Rightarrow> s
      | Some i \<Rightarrow> s\<lparr>timers := filter (\<lambda>e. fst e \<noteq> i) (timers s)\<rparr>)"

subsection \<open>Status line (lines 44-88)\<close>

definition setStatus :: "string \<Rightarrow> string \<Rightarrow> state \<Rightarrow> state" where
  "setStatus msg type s =
     (let s1 = s\<lparr>statusText := msg, statusClass := ''status '' @ type\<rparr>
      in if msg \<noteq> [] \<and> type \<noteq> ''error''
         then snd (setTimer (StatusClearCb msg) s1) else s1)"

definition isTransientError :: "string \<Rightarrow> bool" where
  "isTransientError msg =
     (if msg = [] then False
      else let lowerMsg = toLowerCase msg in
        str_includes lowerMsg ''not valid json'' \<or>
        str_includes lowerMsg ''restriction violated'' \<or>
        str_includes lowerMsg ''failed to parse'' \<or>
        str_includes lowerMsg ''unexpected'' \<and> str_includes lowerMsg ''json'' \<or>
        str_includes lowerMsg ''empty response'')"

text \<open>A transient message is written to the console only; the page is not touched.\<close>

definition setStatusError :: "string \<Rightarrow> bool \<Rightarrow> state \<Rightarrow> state" where
  "setStatusError msg forceShow s =
     (if isTransientError msg \<and> \<not> forceShow then s else setStatus msg ''error'' s)"

subsection \<open>Remote requests (lines 103-118)\<close>

text \<open>\<^verbatim>\<open>spotifyFetch\<close> first awaits \<^verbatim>\<open>getValidToken()\<close>, whose result is the first
  argument. Without a token it throws \<^verbatim>\<open>Not authenticated\<close> and \<^verbatim>\<open>fetch\<close> is never
  called; with one it calls \<^verbatim>\<open>fetch\<close>, and the second argument is what lines 106-117 make
  of the exchange: the decoded reply, or the rejection with its message. The result pairs
  whether the request was sent with what the caller's \<^verbatim>\<open>await\<close> receives.\<close>

definition spotifyFetch :: "string option \<Rightarrow> string + 'a \<Rightarrow> bool \<times> (string + 'a)" where
  "spotifyFetch token exchange =
     (if \<not> truthy token then (False, Inl ''Not authenticated'') else (True, exchange))"

subsection \<open>Device resolver (lines 195-203)\<close>

text \<open>The first argument is \<^verbatim>\<open>sdkDeviceId\<close>; the second is the outcome of
  \<^verbatim>\<open>getDevices()\<close>, which is requested only when the first is falsy.\<close>

definition getPlaybackDeviceId :: "string option \<Rightarrow> string + device list \<Rightarrow> string option" where
  "getPlaybackDeviceId sdk fetched =
     (if truthy sdk then sdk
      else case fetched of
        Inl e \<Rightarrow> None
      | Inr devices \<Rightarrow>
          (case (case find_first is_active devices of
                   Some d \<Rightarrow> Some d
                 | None \<Rightarrow> (case devices of [] \<Rightarrow> None | d # ds \<Rightarrow> Some d)) of
             Some active \<Rightarrow> Some (dev_id active)
           | None \<Rightarrow> None))"

subsection \<open>Playback bar (lines 344-371)\<close>

text \<open>The progress display is kept as the pair \<open>(posMs, durMs)\<close> last handed to
  \<^verbatim>\<open>updateProgressEl\<close>; the width and the two time texts are functions of that pair.\<close>

definition updateProgressEl :: "int \<Rightarrow> int \<Rightarrow> state \<Rightarrow> state" where
  "updateProgressEl posMs durMs s =
     (if \<not> barLoggedIn s then s else s\<lparr>progressEl := Some (posMs, durMs)\<rparr>)"

definition updateBarNowPlaying ::
  "track_item \<Rightarrow> bool \<Rightarrow> int \<Rightarrow> int \<Rightarrow> int option \<Rightarrow> state \<Rightarrow> state" where
  "updateBarNowPlaying track isPlaying posMs durMs bpm s =
     (if \<not> barLoggedIn s then s
      else
        let s1 = s\<lparr>nowPlaying :=
                    TrackPanel (esc (track_name track)) (esc (join '', '' (artists track)))\<rparr>;
            s2 = s1\<lparr>barCenterHidden := False\<rparr>;
            s3 = updateProgressEl posMs durMs s2;
            s4 = s3\<lparr>barBpm := (case bpm of None \<Rightarrow> None
                                | Some b \<Rightarrow> if b \<noteq> 0 then Some b else None)\<rparr>
        in s4\<lparr>ppBtnDisabled := False,
               ppBtnText := (if isPlaying then PauseGlyph else PlayGlyph)\<rparr>)"

subsection \<open>Polling and interpolation (lines 127-191)\<close>

definition stopPolling :: "state \<Rightarrow> state" where
  "stopPolling s =
     (let s1 = clearInterval (pollInterval s) s;
          s2 = clearInterval (progressTimer s1) s1
      in s2\<lparr>pollInterval := None, progressTimer := None\<rparr>)"

text \<open>\<^verbatim>\<open>startPolling\<close> also calls \<^verbatim>\<open>pollPlaybackState()\<close>, which touches no variable
  before its \<^verbatim>\<open>await\<close>; the resumption of that poll is \<open>pollPlaybackState\<close> below.\<close>

definition startPolling :: "state \<Rightarrow> state" where
  "startPolling s =
     (let s1 = stopPolling s;
          (h, s2) = setTimer PollCb s1
      in s2\<lparr>pollInterval := Some h\<rparr>)"

text \<open>The body of the interval callback of lines 177-184, run at time \<open>now\<close>.\<close>

definition progressTick :: "int \<Rightarrow> state \<Rightarrow> state" where
  "progressTick now s =
     (let pos = pollSyncPos s + (now - pollSyncAt s)
      in if pos \<le> pollDuration s
         then (updateProgressEl pos (pollDuration s) s)
                \<lparr>emitted := emitted s @ [(pos, pollDuration s)]\<rparr>
         else clearInterval (progressTimer s) s)"

definition highlight :: "string \<Rightarrow> bool \<Rightarrow> card \<Rightarrow> card" where
  "highlight tid isPlaying c =
     c\<lparr>card_playing := (card_id c = tid),
       card_btn := (case card_btn c of None \<Rightarrow> None
                    | Some b \<Rightarrow> Some (if isPlaying \<and> card_id c = tid
                                       then PauseGlyph else PlayGlyph))\<rparr>"

text \<open>\<^verbatim>\<open>pollPlaybackState\<close> from the point where \<^verbatim>\<open>spotifyFetch('/v1/me/player')\<close>
  settles: \<open>Inl\<close> is the \<^verbatim>\<open>catch\<close> branch, which only logs; \<open>Inr None\<close> is the
  \<^verbatim>\<open>null\<close> of an empty reply; \<open>now\<close> is the \<^verbatim>\<open>Date.now()\<close> of line 156.\<close>

definition pollPlaybackState :: "int \<Rightarrow> string + player_state option \<Rightarrow> state \<Rightarrow> state" where
  "pollPlaybackState now fetched s =
     (case fetched of
        Inl msg \<Rightarrow> s
      | Inr None \<Rightarrow> clearInterval (progressTimer s) s
      | Inr (Some st) \<Rightarrow>
          (case item st of
             None \<Rightarrow> clearInterval (progressTimer s) s
           | Some track \<Rightarrow>
               let isPlaying = is_playing st;
                   posMs = (case progress_ms st of None \<Rightarrow> 0 | Some p \<Rightarrow> p);
                   durMs = (case duration_ms track of None \<Rightarrow> 0 | Some d \<Rightarrow> d);
                   s1 = s\<lparr>pollSyncPos := posMs, pollSyncAt := now, pollDuration := durMs,
                          lastTrackId := Some (track_id track), lastPaused := \<not> isPlaying\<rparr>;
                   s2 = s1\<lparr>cards := map (highlight (track_id track) isPlaying) (cards s1)\<rparr>;
                   bpm = (case find_first (\<lambda>t. fst t = track_id track) (djTracks s2) of
                            None \<Rightarrow> None | Some t \<Rightarrow> snd t);
                   s3 = updateBarNowPlaying track isPlaying posMs durMs bpm s2;
                   s4 = clearInterval (progressTimer s3) s3
               in if isPlaying
                  then (let (h, s5) = setTimer ProgressCb s4 in s5\<lparr>progressTimer := Some h\<rparr>)
                  else s4))"

subsection \<open>Commands (lines 205-273)\<close>

definition remove_nth :: "nat \<Rightarrow> 'a list \<Rightarrow> 'a list" where
  "remove_nth k xs = take k xs @ drop (Suc k) xs"

definition nth_opt :: "'a list \<Rightarrow> nat \<Rightarrow> 'a option" where
  "nth_opt xs k = (if k < length xs then Some (xs ! k) else None)"

text \<open>\<^verbatim>\<open>err.message || 'Playback failed'\<close>.\<close>

definition message_or :: "string \<Rightarrow> string \<Rightarrow> string" where
  "message_or msg dflt = (if msg \<noteq> [] then msg else dflt)"

text \<open>\<^verbatim>\<open>playTrack\<close> up to \<^verbatim>\<open>await getPlaybackDeviceId()\<close>. The resolver reads
  \<^verbatim>\<open>sdkDeviceId\<close> before it suspends, so the frame keeps the value read.\<close>

definition playTrack :: "int \<Rightarrow> string \<Rightarrow> state \<Rightarrow> state" where
  "playTrack now trackId s =
     (if playTrackPending s then s
      else if now - lastPlayTrackTime s < 500 then s
      else s\<lparr>playTrackPending := True, lastPlayTrackTime := now,
             playFrames := playFrames s @ [AwaitDevice trackId (sdkDeviceId s)]\<rparr>)"

text \<open>\<^verbatim>\<open>playTrack\<close> from the device id to \<^verbatim>\<open>await spotifyFetch(...)\<close> (lines 215-228);
  \<open>k\<close> is the position of the frame being resumed.\<close>

definition playTrack_device ::
  "nat \<Rightarrow> string \<Rightarrow> string option \<Rightarrow> string + device list \<Rightarrow> state \<Rightarrow> state" where
  "playTrack_device k trackId sdk fetched s =
     (let deviceId = getPlaybackDeviceId sdk fetched
      in if \<not> truthy deviceId
         then (setStatus ''No active Spotify device found. Open the Spotify app first.''
                 ''error'' s)
                \<lparr>playTrackPending := False, playFrames := remove_nth k (playFrames s)\<rparr>
         else
           let s1 = snd (setTimer PollOnceCb s)
           in s1\<lparr>issued := issued s1 @
                             [PlayTrackCmd (case deviceId of None \<Rightarrow> [] | Some d \<Rightarrow> d) trackId],
                 playFrames := (playFrames s1)[k := AwaitPlay]\<rparr>)"

text \<open>\<^verbatim>\<open>playTrack\<close> from the settling of the play request: \<^verbatim>\<open>catch\<close> and
  \<^verbatim>\<open>finally\<close> (lines 229-233).\<close>

definition playTrack_settle :: "nat \<Rightarrow> string + unit \<Rightarrow> state \<Rightarrow> state" where
  "playTrack_settle k outcome s =
     (let s1 = (case outcome of
                  Inl msg \<Rightarrow> setStatusError (message_or msg ''Playback failed'') False s
                | Inr u \<Rightarrow> s)
      in s1\<lparr>playTrackPending := False, playFrames := remove_nth k (playFrames s1)\<rparr>)"

text \<open>\<^verbatim>\<open>togglePlayPause\<close> from the call to its first suspension (lines 238-262), or to
  its end when the SDK branch is taken: \<^verbatim>\<open>spotifyPlayer.togglePlay()\<close> is not awaited,
  so that branch runs through line 264 and the \<^verbatim>\<open>finally\<close> without suspending.\<close>

definition togglePlayPause :: "int \<Rightarrow> state \<Rightarrow> state" where
  "togglePlayPause now s =
     (if playbackCommandPending s then s
      else if now - lastPlaybackCommandTime s < 500 then s
      else
        let s1 = s\<lparr>playbackCommandPending := True\<rparr>;
            ppBtn = barLoggedIn s1;
            prevPaused = lastPaused s1;
            shouldPlay = prevPaused;
            s2 = s1\<lparr>lastPaused := \<not> lastPaused s1\<rparr>;
            s3 = (if ppBtn then s2\<lparr>ppBtnText := glyph_of (lastPaused s2)\<rparr> else s2);
            s4 = (if lastPaused s3 then clearInterval (progressTimer s3) s3 else s3)
        in if spotifyPlayer s4 \<and> truthy (sdkDeviceId s4)
           then s4\<lparr>issued := issued s4 @ [SdkToggleCmd],
                   lastPlaybackCommandTime := now,
                   playbackCommandPending := False\<rparr>
           else s4\<lparr>issued := issued s4 @ [if shouldPlay then PlayCmd else PauseCmd],
                   toggleFrames := toggleFrames s4 @
                     [\<lparr>tf_now = now, tf_prevPaused = prevPaused, tf_ppBtn = ppBtn\<rparr>]\<rparr>)"

text \<open>\<^verbatim>\<open>togglePlayPause\<close> from the settling of the awaited play or pause request
  (lines 264-272); \<open>k\<close> is the position of the frame \<open>f\<close> being resumed.\<close>

definition togglePlayPause_settle ::
  "nat \<Rightarrow> toggle_frame \<Rightarrow> string + unit \<Rightarrow> state \<Rightarrow> state" where
  "togglePlayPause_settle k f outcome s =
     (let s3 = (case outcome of
                  Inr u \<Rightarrow> s\<lparr>lastPlaybackCommandTime := tf_now f\<rparr>
                | Inl msg \<Rightarrow>
                    let s1 = s\<lparr>lastPaused := tf_prevPaused f\<rparr>;
                        s2 = (if tf_ppBtn f then s1\<lparr>ppBtnText := glyph_of (lastPaused s1)\<rparr>
                              else s1)
                    in setStatusError (message_or msg ''Playback failed'') False s2)
      in s3\<lparr>playbackCommandPending := False,
            toggleFrames := remove_nth k (toggleFrames s3)\<rparr>)"

subsection \<open>SDK listeners (lines 286-291)\<close>

definition sdk_ready :: "string \<Rightarrow> state \<Rightarrow> state" where
  "sdk_ready device_id s = setStatus ''In-app player ready'' ''ok'' (s\<lparr>sdkDeviceId := Some device_id\<rparr>)"

definition sdk_not_ready :: "state \<Rightarrow> state" where
  "sdk_not_ready s = s\<lparr>sdkDeviceId := None\<rparr>"

definition sdk_player_state_changed :: "sdk_state option \<Rightarrow> state \<Rightarrow> state" where
  "sdk_player_state_changed st s =
     (case st of None \<Rightarrow> s
      | Some x \<Rightarrow>
          s\<lparr>lastTrackId := (if truthy (current_track_id x) then current_track_id x else None),
            lastPaused := paused x\<rparr>)"

subsection \<open>The event loop\<close>

text \<open>One event is one uninterrupted run of renderer code: a call from the page, the
  resumption of a suspended invocation, a timer firing, or an SDK listener. A poll may be
  resumed at any time, since polls are started by the interval, by \<^verbatim>\<open>startPolling\<close> and
  by \<^verbatim>\<open>playTrack\<close>, and starting one changes nothing. \<open>step\<close> is \<open>None\<close> when the
  event cannot happen in the state: no such timer is live, or no such invocation is
  suspended where the event resumes it. \<open>SdkToggleDone\<close> is the settling of the promise
  that \<^verbatim>\<open>spotifyPlayer.togglePlay()\<close> returned: nothing is attached to it. The two
  resumptions of \<^verbatim>\<open>playTrack\<close> carry the clock reading \<open>at\<close> of the moment they run,
  which only the history field \<open>playTrackReturnedAt\<close> receives.\<close>

datatype event =
    PollDone int "string + player_state option"
  | TimerFired nat int
  | ToggleCall int
  | ToggleDone nat "string + unit"
  | PlayTrackCall int string
  | PlayDeviceDone nat int "string + device list"
  | PlayDone nat int "string + unit"
  | SdkToggleDone "string + unit"
  | SdkReady string
  | SdkNotReady
  | SdkStateChanged "sdk_state option"
  | InitPlayer
  | StartPolling
  | StopPolling

definition fire :: "nat \<Rightarrow> int \<Rightarrow> state \<Rightarrow> state option" where
  "fire t now s =
     (case map_of (timers s) t of
        None \<Rightarrow> None
      | Some PollCb \<Rightarrow> Some s
      | Some ProgressCb \<Rightarrow> Some (progressTick now s)
      | Some PollOnceCb \<Rightarrow> Some (clearInterval (Some t) s)
      | Some (StatusClearCb msg) \<Rightarrow>
          (let s1 = clearInterval (Some t) s
           in Some (if statusText s1 = msg then s1\<lparr>statusText := []\<rparr> else s1)))"

fun step :: "event \<Rightarrow> state \<Rightarrow> state option" where
  "step (PollDone now fetched) s = Some (pollPlaybackState now fetched s)"
| "step (TimerFired t now) s = fire t now s"
| "step (ToggleCall now) s = Some (togglePlayPause now s)"
| "step (ToggleDone k outcome) s =
     (case nth_opt (toggleFrames s) k of
        None \<Rightarrow> None
      | Some f \<Rightarrow> Some (togglePlayPause_settle k f outcome s))"
| "step (PlayTrackCall now trackId) s = Some (playTrack now trackId s)"
| "step (PlayDeviceDone k at fetched) s =
     (case nth_opt (playFrames s) k of
        Some (AwaitDevice trackId sdk) \<Rightarrow>
          (let s1 = playTrack_device k trackId sdk fetched s
           in Some (if playTrackPending s1 then s1 else s1\<lparr>playTrackReturnedAt := Some at\<rparr>))
      | _ \<Rightarrow> None)"
| "step (PlayDone k at outcome) s =
     (case nth_opt (playFrames s) k of
        Some AwaitPlay \<Rightarrow> Some ((playTrack_settle k outcome s)\<lparr>playTrackReturnedAt := Some at\<rparr>)
      | _ \<Rightarrow> None)"
| "step (SdkToggleDone outcome) s = Some s"
| "step (SdkReady device_id) s = Some (sdk_ready device_id s)"
| "step SdkNotReady s = Some (sdk_not_ready s)"
| "step (SdkStateChanged st) s = Some (sdk_player_state_changed st s)"
| "step InitPlayer s = Some (s\<lparr>spotifyPlayer := True\<rparr>)"
| "step StartPolling s = Some (startPolling s)"
| "step StopPolling s = Some (stopPolling s)"

fun run :: "event list \<Rightarrow> state \<Rightarrow> state option" where
  "run [] s = Some s"
| "run (e # es) s = (case step e s of None \<Rightarrow> None | Some s' \<Rightarrow> run es s')"

text \<open>The module as loaded (lines 3-23), with the logged-in bar freshly rendered
  (lines 311-338) and the library mirror and the cards given.\<close>

definition loaded :: "(string \<times> int option) list \<Rightarrow> card list \<Rightarrow> state" where
  "loaded lib cs =
     \<lparr>spotifyPlayer = False, sdkDeviceId = None, progressTimer = None, pollInterval = None,
      djTracks = lib, pollSyncPos = 0, pollSyncAt = 0, pollDuration = 0,
      lastTrackId = None, lastPaused = True,
      playbackCommandPending = False, lastPlaybackCommandTime = 0,
      playTrackPending = False, lastPlayTrackTime = 0,
      statusText = [], statusClass = ''status'',
      barLoggedIn = True, nowPlaying = IdlePanel, barCenterHidden = True,
      progressEl = None, barBpm = None, ppBtnDisabled = True, ppBtnText = PlayGlyph,
      cards = cs,
      timers = [], nextTimerId = 1, toggleFrames = [], playFrames = [],
      issued = [], emitted = [], playTrackReturnedAt = None\<rparr>"

subsection \<open>Vocabulary of the properties\<close>

text \<open>The play and pause requests handed to \<^verbatim>\<open>spotifyFetch\<close> so far.\<close>

definition toggle_requests :: "state \<Rightarrow> nat" where
  "toggle_requests s = length (filter (\<lambda>c. c = PlayCmd \<or> c = PauseCmd) (issued s))"

fun is_toggle_done :: "event \<Rightarrow> bool" where
  "is_toggle_done (ToggleDone k outcome) = True"
| "is_toggle_done e = False"

fun is_play_call :: "event \<Rightarrow> bool" where
  "is_play_call (PlayTrackCall now trackId) = True"
| "is_play_call e = False"

text \<open>At most one \<^verbatim>\<open>togglePlayPause\<close> invocation is suspended, and the pending flag is
  set exactly while one is.\<close>

definition toggle_inv :: "state \<Rightarrow> bool" where
  "toggle_inv s =
     (length (toggleFrames s) \<le> 1 \<and> playbackCommandPending s = (toggleFrames s \<noteq> []))"

text \<open>The interpolation clock runs when a timer with the tick as its callback is live.
  It is owned when every such timer is the one whose handle \<^verbatim>\<open>progressTimer\<close> holds, so
  that \<^verbatim>\<open>clearInterval(progressTimer)\<close> stops the clock.\<close>

definition clock_owned :: "state \<Rightarrow> bool" where
  "clock_owned s =
     list_all (\<lambda>e. snd e = ProgressCb \<longrightarrow> progressTimer s = Some (fst e)) (timers s)"

definition clock_running :: "state \<Rightarrow> bool" where
  "clock_running s = list_ex (\<lambda>e. snd e = ProgressCb) (timers s)"

text \<open>Every position the tick has emitted is at most the duration it was emitted with.\<close>

definition emitted_ok :: "state \<Rightarrow> bool" where
  "emitted_ok s = list_all (\<lambda>e. fst e \<le> snd e) (emitted s)"

text \<open>The one event that creates an interpolation timer: a poll that succeeds with an
  item that is playing.\<close>

fun restarts_clock :: "event \<Rightarrow> bool" where
  "restarts_clock (PollDone now (Inr (Some st))) = (item st \<noteq> None \<and> is_playing st)"
| "restarts_clock e = False"

text \<open>\<^verbatim>\<open>!state || !state.item\<close> (line 143).\<close>

definition nothing_loaded :: "player_state option \<Rightarrow> bool" where
  "nothing_loaded r = (case r of None \<Rightarrow> True | Some st \<Rightarrow> item st = None)"

text \<open>Inputs of the scenarios: the snapshot of the spec's interpolation scenario, the same
  one paused, and the state of a freshly loaded page with an empty library.\<close>

definition playing_snapshot :: player_state where
  "playing_snapshot =
     \<lparr>item = Some \<lparr>track_id = ''abc'', track_name = ''Sing Sing Sing'',
                   artists = [''Benny Goodman''], duration_ms = Some 200000\<rparr>,
      is_playing = True, progress_ms = Some 5000\<rparr>"

definition paused_snapshot :: player_state where
  "paused_snapshot = playing_snapshot\<lparr>is_playing := False\<rparr>"

definition fresh :: state where
  "fresh = loaded [] []"

definition now_playing :: state where
  "now_playing = pollPlaybackState 1000000 (Inr (Some playing_snapshot)) fresh"

text \<open>What the scenarios observe of a state.\<close>

definition flag_suspended_issued :: "state \<Rightarrow> bool \<times> nat \<times> command list" where
  "flag_suspended_issued s = (playbackCommandPending s, length (toggleFrames s), issued s)"

definition belief_button_status :: "state \<Rightarrow> bool \<times> glyph \<times> string \<times> string \<times> command list" where
  "belief_button_status s = (lastPaused s, ppBtnText s, statusText s, statusClass s, issued s)"

definition belief_button_clock :: "state \<Rightarrow> bool \<times> glyph \<times> command list \<times> bool \<times> bool" where
  "belief_button_clock s =
     (lastPaused s, ppBtnText s, issued s, playbackCommandPending s, clock_running s)"

definition playTrack_guard_state :: "state \<Rightarrow> int option \<times> bool \<times> int \<times> play_frame list" where
  "playTrack_guard_state s =
     (playTrackReturnedAt s, playTrackPending s, lastPlayTrackTime s, playFrames s)"

section \<open>Auxiliary facts\<close>

subsection \<open>What the helpers leave alone\<close>

lemma setTimer_fields [simp]:
  "timers (snd (setTimer cb s)) = timers s @ [(nextTimerId s, cb)]"
  "nextTimerId (snd (setTimer cb s)) = Suc (nextTimerId s)"
  "fst (setTimer cb s) = nextTimerId s"
  "toggleFrames (snd (setTimer cb s)) = toggleFrames s"
  "playFrames (snd (setTimer cb s)) = playFrames s"
  "playbackCommandPending (snd (setTimer cb s)) = playbackCommandPending s"
  "lastPlaybackCommandTime (snd (setTimer cb s)) = lastPlaybackCommandTime s"
  "playTrackPending (snd (setTimer cb s)) = playTrackPending s"
  "lastPlayTrackTime (snd (setTimer cb s)) = lastPlayTrackTime s"
  "issued (snd (setTimer cb s)) = issued s"
  "emitted (snd (setTimer cb s)) = emitted s"
  "progressTimer (snd (setTimer cb s)) = progressTimer s"
  "lastPaused (snd (setTimer cb s)) = lastPaused s"
  "barLoggedIn (snd (setTimer cb s)) = barLoggedIn s"
  "ppBtnText (snd (setTimer cb s)) = ppBtnText s"
  "statusText (snd (setTimer cb s)) = statusText s"
  "statusClass (snd (setTimer cb s)) = statusClass s"
  "spotifyPlayer (snd (setTimer cb s)) = spotifyPlayer s"
  "sdkDeviceId (snd (setTimer cb s)) = sdkDeviceId s"
  by (simp_all add: setTimer_def)

lemma clearInterval_fields [simp]:
  "timers (clearInterval h s) =
     (case h of None \<Rightarrow> timers s | Some i \<Rightarrow> filter (\<lambda>e. fst e \<noteq> i) (timers s))"
  "nextTimerId (clearInterval h s) = nextTimerId s"
  "toggleFrames (clearInterval h s) = toggleFrames s"
  "playFrames (clearInterval h s) = playFrames s"
  "playbackCommandPending (clearInterval h s) = playbackCommandPending s"
  "lastPlaybackCommandTime (clearInterval h s) = lastPlaybackCommandTime s"
  "playTrackPending (clearInterval h s) = playTrackPending s"
  "lastPlayTrackTime (clearInterval h s) = lastPlayTrackTime s"
  "issued (clearInterval h s) = issued s"
  "emitted (clearInterval h s) = emitted s"
  "progressTimer (clearInterval h s) = progressTimer s"
  "lastPaused (clearInterval h s) = lastPaused s"
  "barLoggedIn (clearInterval h s) = barLoggedIn s"
  "ppBtnText (clearInterval h s) = ppBtnText s"
  "statusText (clearInterval h s) = statusText s"
  "statusClass (clearInterval h s) = statusClass s"
  "spotifyPlayer (clearInterval h s) = spotifyPlayer s"
  "sdkDeviceId (clearInterval h s) = sdkDeviceId s"
  "pollInterval (clearInterval h s) = pollInterval s"
  by (simp_all add: clearInterval_def split: option.splits)

lemma setStatus_fields [simp]:
  "toggleFrames (setStatus m ty s) = toggleFrames s"
  "playFrames (setStatus m ty s) = playFrames s"
  "playbackCommandPending (setStatus m ty s) = playbackCommandPending s"
  "lastPlaybackCommandTime (setStatus m ty s) = lastPlaybackCommandTime s"
  "playTrackPending (setStatus m ty s) = playTrackPending s"
  "lastPlayTrackTime (setStatus m ty s) = lastPlayTrackTime s"
  "issued (setStatus m ty s) = issued s"
  "emitted (setStatus m ty s) = emitted s"
  "progressTimer (setStatus m ty s) = progressTimer s"
  "lastPaused (setStatus m ty s) = lastPaused s"
  "barLoggedIn (setStatus m ty s) = barLoggedIn s"
  "ppBtnText (setStatus m ty s) = ppBtnText s"
  "spotifyPlayer (setStatus m ty s) = spotifyPlayer s"
  "sdkDeviceId (setStatus m ty s) = sdkDeviceId s"
  "statusText (setStatus m ty s) = m"
  "statusClass (setStatus m ty s) = ''status '' @ ty"
  "timers (setStatus m ty s) =
     (if m \<noteq> [] \<and> ty \<noteq> ''error'' then timers s @ [(nextTimerId s, StatusClearCb m)]
      else timers s)"
  by (simp_all add: setStatus_def Let_def)

lemma setStatusError_fields [simp]:
  "toggleFrames (setStatusError m fc s) = toggleFrames s"
  "playFrames (setStatusError m fc s) = playFrames s"
  "playbackCommandPending (setStatusError m fc s) = playbackCommandPending s"
  "lastPlaybackCommandTime (setStatusError m fc s) = lastPlaybackCommandTime s"
  "playTrackPending (setStatusError m fc s) = playTrackPending s"
  "lastPlayTrackTime (setStatusError m fc s) = lastPlayTrackTime s"
  "issued (setStatusError m fc s) = issued s"
  "emitted (setStatusError m fc s) = emitted s"
  "progressTimer (setStatusError m fc s) = progressTimer s"
  "lastPaused (setStatusError m fc s) = lastPaused s"
  "barLoggedIn (setStatusError m fc s) = barLoggedIn s"
  "ppBtnText (setStatusError m fc s) = ppBtnText s"
  "spotifyPlayer (setStatusError m fc s) = spotifyPlayer s"
  "sdkDeviceId (setStatusError m fc s) = sdkDeviceId s"
  "timers (setStatusError m fc s) = timers s"
  by (simp_all add: setStatusError_def)

lemma updateProgressEl_fields [simp]:
  "toggleFrames (updateProgressEl p d s) = toggleFrames s"
  "playFrames (updateProgressEl p d s) = playFrames s"
  "playbackCommandPending (updateProgressEl p d s) = playbackCommandPending s"
  "lastPlaybackCommandTime (updateProgressEl p d s) = lastPlaybackCommandTime s"
  "playTrackPending (updateProgressEl p d s) = playTrackPending s"
  "lastPlayTrackTime (updateProgressEl p d s) = lastPlayTrackTime s"
  "issued (updateProgressEl p d s) = issued s"
  "emitted (updateProgressEl p d s) = emitted s"
  "progressTimer (updateProgressEl p d s) = progressTimer s"
  "lastPaused (updateProgressEl p d s) = lastPaused s"
  "barLoggedIn (updateProgressEl p d s) = barLoggedIn s"
  "ppBtnText (updateProgressEl p d s) = ppBtnText s"
  "spotifyPlayer (updateProgressEl p d s) = spotifyPlayer s"
  "sdkDeviceId (updateProgressEl p d s) = sdkDeviceId s"
  "timers (updateProgressEl p d s) = timers s"
  "nextTimerId (updateProgressEl p d s) = nextTimerId s"
  "statusText (updateProgressEl p d s) = statusText s"
  "statusClass (updateProgressEl p d s) = statusClass s"
  by (simp_all add: updateProgressEl_def)

lemma updateBarNowPlaying_fields [simp]:
  "toggleFrames (updateBarNowPlaying tr ip p d b s) = toggleFrames s"
  "playFrames (updateBarNowPlaying tr ip p d b s) = playFrames s"
  "playbackCommandPending (updateBarNowPlaying tr ip p d b s) = playbackCommandPending s"
  "lastPlaybackCommandTime (updateBarNowPlaying tr ip p d b s) = lastPlaybackCommandTime s"
  "playTrackPending (updateBarNowPlaying tr ip p d b s) = playTrackPending s"
  "lastPlayTrackTime (updateBarNowPlaying tr ip p d b s) = lastPlayTrackTime s"
  "issued (updateBarNowPlaying tr ip p d b s) = issued s"
  "emitted (updateBarNowPlaying tr ip p d b s) = emitted s"
  "progressTimer (updateBarNowPlaying tr ip p d b s) = progressTimer s"
  "lastPaused (updateBarNowPlaying tr ip p d b s) = lastPaused s"
  "barLoggedIn (updateBarNowPlaying tr ip p d b s) = barLoggedIn s"
  "spotifyPlayer (updateBarNowPlaying tr ip p d b s) = spotifyPlayer s"
  "sdkDeviceId (updateBarNowPlaying tr ip p d b s) = sdkDeviceId s"
  "timers (updateBarNowPlaying tr ip p d b s) = timers s"
  "nextTimerId (updateBarNowPlaying tr ip p d b s) = nextTimerId s"
  "statusText (updateBarNowPlaying tr ip p d b s) = statusText s"
  "statusClass (updateBarNowPlaying tr ip p d b s) = statusClass s"
  by (simp_all add: updateBarNowPlaying_def Let_def)

subsection \<open>A suspended toggle\<close>

text \<open>No event but the settling of its request touches a suspended \<^verbatim>\<open>togglePlayPause\<close>:
  its frame, the pending flag, the throttle timestamp and the count of play and pause
  requests stay as they are.\<close>

lemma pollPlaybackState_toggle_view:
  "toggleFrames (pollPlaybackState now fetched s) = toggleFrames s \<and>
   playbackCommandPending (pollPlaybackState now fetched s) = playbackCommandPending s \<and>
   lastPlaybackCommandTime (pollPlaybackState now fetched s) = lastPlaybackCommandTime s \<and>
   issued (pollPlaybackState now fetched s) = issued s \<and>
   barLoggedIn (pollPlaybackState now fetched s) = barLoggedIn s"
  by (simp add: pollPlaybackState_def Let_def split_beta split: sum.splits option.splits)

lemma fire_toggle_view:
  "fire t now s = Some s' \<Longrightarrow>
   toggleFrames s' = toggleFrames s \<and>
   playbackCommandPending s' = playbackCommandPending s \<and>
   lastPlaybackCommandTime s' = lastPlaybackCommandTime s \<and>
   issued s' = issued s \<and> barLoggedIn s' = barLoggedIn s"
  by (auto simp: fire_def progressTick_def Let_def split: option.splits callback.splits if_splits)

lemma playTrack_toggle_view:
  "toggleFrames (playTrack now tid s) = toggleFrames s \<and>
   playbackCommandPending (playTrack now tid s) = playbackCommandPending s \<and>
   lastPlaybackCommandTime (playTrack now tid s) = lastPlaybackCommandTime s \<and>
   issued (playTrack now tid s) = issued s \<and>
   barLoggedIn (playTrack now tid s) = barLoggedIn s"
  by (simp add: playTrack_def)

lemma playTrack_device_toggle_view:
  "toggleFrames (playTrack_device k tid sdk fetched s) = toggleFrames s \<and>
   playbackCommandPending (playTrack_device k tid sdk fetched s) = playbackCommandPending s \<and>
   lastPlaybackCommandTime (playTrack_device k tid sdk fetched s) = lastPlaybackCommandTime s \<and>
   toggle_requests (playTrack_device k tid sdk fetched s) = toggle_requests s \<and>
   barLoggedIn (playTrack_device k tid sdk fetched s) = barLoggedIn s"
  by (simp add: playTrack_device_def Let_def toggle_requests_def)

lemma playTrack_settle_toggle_view:
  "toggleFrames (playTrack_settle k outcome s) = toggleFrames s \<and>
   playbackCommandPending (playTrack_settle k outcome s) = playbackCommandPending s \<and>
   lastPlaybackCommandTime (playTrack_settle k outcome s) = lastPlaybackCommandTime s \<and>
   issued (playTrack_settle k outcome s) = issued s \<and>
   barLoggedIn (playTrack_settle k outcome s) = barLoggedIn s"
  by (simp add: playTrack_settle_def Let_def split: sum.splits)

lemma stopPolling_toggle_view:
  "toggleFrames (stopPolling s) = toggleFrames s \<and>
   playbackCommandPending (stopPolling s) = playbackCommandPending s \<and>
   lastPlaybackCommandTime (stopPolling s) = lastPlaybackCommandTime s \<and>
   issued (stopPolling s) = issued s \<and>
   barLoggedIn (stopPolling s) = barLoggedIn s"
  by (simp add: stopPolling_def Let_def)

lemma startPolling_toggle_view:
  "toggleFrames (startPolling s) = toggleFrames s \<and>
   playbackCommandPending (startPolling s) = playbackCommandPending s \<and>
   lastPlaybackCommandTime (startPolling s) = lastPlaybackCommandTime s \<and>
   issued (startPolling s) = issued s \<and>
   barLoggedIn (startPolling s) = barLoggedIn s"
  by (simp add: startPolling_def stopPolling_def Let_def split_beta)

lemma sdk_toggle_view:
  "toggleFrames (sdk_ready d s) = toggleFrames s \<and>
   playbackCommandPending (sdk_ready d s) = playbackCommandPending s \<and>
   lastPlaybackCommandTime (sdk_ready d s) = lastPlaybackCommandTime s \<and>
   issued (sdk_ready d s) = issued s \<and>
   barLoggedIn (sdk_ready d s) = barLoggedIn s \<and>
   toggleFrames (sdk_not_ready s) = toggleFrames s \<and>
   playbackCommandPending (sdk_not_ready s) = playbackCommandPending s \<and>
   lastPlaybackCommandTime (sdk_not_ready s) = lastPlaybackCommandTime s \<and>
   issued (sdk_not_ready s) = issued s \<and>
   barLoggedIn (sdk_not_ready s) = barLoggedIn s \<and>
   toggleFrames (sdk_player_state_changed st s) = toggleFrames s \<and>
   playbackCommandPending (sdk_player_state_changed st s) = playbackCommandPending s \<and>
   lastPlaybackCommandTime (sdk_player_state_changed st s) = lastPlaybackCommandTime s \<and>
   issued (sdk_player_state_changed st s) = issued s \<and>
   barLoggedIn (sdk_player_state_changed st s) = barLoggedIn s"
  by (simp add: sdk_ready_def sdk_not_ready_def sdk_player_state_changed_def split: option.splits)

lemma suspended_step:
  assumes "toggleFrames s = [f]" and "playbackCommandPending s"
    and "step e s = Some s'" and "\<not> is_toggle_done e"
  shows "toggleFrames s' = [f] \<and> playbackCommandPending s' \<and>
         lastPlaybackCommandTime s' = lastPlaybackCommandTime s \<and>
         toggle_requests s' = toggle_requests s \<and> barLoggedIn s' = barLoggedIn s"
proof (cases e)
  case (PollDone now fetched)
  with assms pollPlaybackState_toggle_view [of now fetched s] show ?thesis
    by (auto simp: toggle_requests_def)
next
  case (TimerFired t now)
  with assms fire_toggle_view [of t now s s'] show ?thesis
    by (auto simp: toggle_requests_def)
next
  case (ToggleCall now)
  with assms show ?thesis by (simp add: togglePlayPause_def)
next
  case (ToggleDone k outcome)
  with assms show ?thesis by simp
next
  case (PlayTrackCall now tid)
  with assms playTrack_toggle_view [of now tid s] show ?thesis
    by (auto simp: toggle_requests_def)
next
  case (PlayDeviceDone k at fetched)
  with assms show ?thesis
    using playTrack_device_toggle_view [of k _ _ fetched s]
    by (auto simp: toggle_requests_def Let_def split: option.splits play_frame.splits if_splits)
next
  case (PlayDone k at outcome)
  with assms playTrack_settle_toggle_view [of k outcome s] show ?thesis
    by (auto simp: toggle_requests_def split: option.splits play_frame.splits)
next
  case (SdkToggleDone outcome)
  with assms show ?thesis by simp
next
  case (SdkReady d)
  with assms sdk_toggle_view [of d s] show ?thesis by (auto simp: toggle_requests_def)
next
  case SdkNotReady
  with assms sdk_toggle_view [of _ s] show ?thesis by (auto simp: toggle_requests_def)
next
  case (SdkStateChanged st)
  with assms sdk_toggle_view [of _ s st] show ?thesis by (auto simp: toggle_requests_def)
next
  case InitPlayer
  with assms show ?thesis by (auto simp: toggle_requests_def)
next
  case StartPolling
  with assms startPolling_toggle_view [of s] show ?thesis by (auto simp: toggle_requests_def)
next
  case StopPolling
  with assms stopPolling_toggle_view [of s] show ?thesis by (auto simp: toggle_requests_def)
qed

lemma suspended_run:
  "toggleFrames s = [f] \<Longrightarrow> playbackCommandPending s \<Longrightarrow> run es s = Some s' \<Longrightarrow>
   \<forall>e\<in>set es. \<not> is_toggle_done e \<Longrightarrow>
   toggleFrames s' = [f] \<and> playbackCommandPending s' \<and>
   lastPlaybackCommandTime s' = lastPlaybackCommandTime s \<and>
   toggle_requests s' = toggle_requests s \<and> barLoggedIn s' = barLoggedIn s"
proof (induction es arbitrary: s)
  case Nil
  then show ?case by simp
next
  case (Cons e es)
  from Cons.prems(3) obtain s1 where e: "step e s = Some s1" and r: "run es s1 = Some s'"
    by (auto split: option.splits)
  from Cons.prems(4) have ne: "\<not> is_toggle_done e" and nes: "\<forall>e\<in>set es. \<not> is_toggle_done e"
    by simp_all
  from suspended_step [OF Cons.prems(1) Cons.prems(2) e ne]
  have s1: "toggleFrames s1 = [f]" "playbackCommandPending s1"
    "lastPlaybackCommandTime s1 = lastPlaybackCommandTime s"
    "toggle_requests s1 = toggle_requests s" "barLoggedIn s1 = barLoggedIn s"
    by simp_all
  from Cons.IH [OF s1(1) s1(2) r nes] s1 show ?case by simp
qed

lemma togglePlayPause_suspends:
  assumes "\<not> playbackCommandPending s" and "playbackCommandPending (togglePlayPause now s)"
  shows "toggleFrames (togglePlayPause now s) =
           toggleFrames s @ [\<lparr>tf_now = now, tf_prevPaused = lastPaused s, tf_ppBtn = barLoggedIn s\<rparr>]"
    and "toggle_requests (togglePlayPause now s) = Suc (toggle_requests s)"
    and "lastPlaybackCommandTime (togglePlayPause now s) = lastPlaybackCommandTime s"
    and "\<not> now - lastPlaybackCommandTime s < 500"
    and "\<not> (spotifyPlayer s \<and> truthy (sdkDeviceId s))"
  using assms
  by (auto simp: togglePlayPause_def Let_def toggle_requests_def split: if_splits)

lemma togglePlayPause_remote:
  assumes "\<not> playbackCommandPending s" and "\<not> now - lastPlaybackCommandTime s < 500"
    and "\<not> (spotifyPlayer s \<and> truthy (sdkDeviceId s))"
  shows "playbackCommandPending (togglePlayPause now s)"
  using assms by (auto simp: togglePlayPause_def Let_def)

lemma toggle_settle_fields:
  "lastPlaybackCommandTime (togglePlayPause_settle k f (Inl msg) s) = lastPlaybackCommandTime s"
  "lastPlaybackCommandTime (togglePlayPause_settle k f (Inr u) s) = tf_now f"
  "playbackCommandPending (togglePlayPause_settle k f outcome s) = False"
  "toggleFrames (togglePlayPause_settle k f outcome s) = remove_nth k (toggleFrames s)"
  "lastPaused (togglePlayPause_settle k f (Inl msg) s) = tf_prevPaused f"
  "timers (togglePlayPause_settle k f outcome s) = timers s"
  "emitted (togglePlayPause_settle k f outcome s) = emitted s"
  "progressTimer (togglePlayPause_settle k f outcome s) = progressTimer s"
  "barLoggedIn (togglePlayPause_settle k f outcome s) = barLoggedIn s"
  "ppBtnText (togglePlayPause_settle k f (Inl msg) s) =
     (if tf_ppBtn f then glyph_of (tf_prevPaused f) else ppBtnText s)"
  by (simp_all add: togglePlayPause_settle_def Let_def split: sum.splits)

subsection \<open>Ownership of the interpolation timer\<close>

text \<open>Every event keeps the interpolation timers owned by \<^verbatim>\<open>progressTimer\<close>: each place that
  creates one has cleared the previous one first.\<close>

lemma clock_owned_iff:
  "clock_owned s \<longleftrightarrow> (\<forall>t. (t, ProgressCb) \<in> set (timers s) \<longrightarrow> progressTimer s = Some t)"
  by (auto simp: clock_owned_def list_all_iff)

lemma clock_running_iff:
  "clock_running s \<longleftrightarrow> (\<exists>t. (t, ProgressCb) \<in> set (timers s))"
  by (force simp: clock_running_def list_ex_iff)

lemma clear_own_stops:
  "clock_owned s \<Longrightarrow> \<not> clock_running (clearInterval (progressTimer s) s)"
  by (auto simp: clock_owned_iff clock_running_iff split: option.splits)

lemma stopped_owned:
  "\<not> clock_running s \<Longrightarrow> timers s' = timers s \<Longrightarrow> clock_owned s'"
  by (simp add: clock_owned_iff clock_running_iff)

lemma pollPlaybackState_owned:
  "clock_owned s \<Longrightarrow> clock_owned (pollPlaybackState now fetched s)"
  by (auto simp: pollPlaybackState_def clock_owned_iff Let_def split_beta
           split: sum.splits option.splits)

lemma fire_owned:
  "clock_owned s \<Longrightarrow> fire t now s = Some s' \<Longrightarrow> clock_owned s'"
  by (auto simp: fire_def progressTick_def clock_owned_iff Let_def
           split: option.splits callback.splits if_splits)

lemma togglePlayPause_owned:
  "clock_owned s \<Longrightarrow> clock_owned (togglePlayPause now s)"
  by (auto simp: togglePlayPause_def clock_owned_iff Let_def split: option.splits)

lemma togglePlayPause_settle_owned:
  "clock_owned s \<Longrightarrow> clock_owned (togglePlayPause_settle k f outcome s)"
  by (auto simp: togglePlayPause_settle_def clock_owned_iff Let_def split: sum.splits)

lemma playTrack_owned:
  "clock_owned s \<Longrightarrow> clock_owned (playTrack now tid s)"
  by (auto simp: playTrack_def clock_owned_iff)

lemma playTrack_device_owned:
  "clock_owned s \<Longrightarrow> clock_owned (playTrack_device k tid sdk fetched s)"
  by (auto simp: playTrack_device_def clock_owned_iff Let_def)

lemma playTrack_settle_owned:
  "clock_owned s \<Longrightarrow> clock_owned (playTrack_settle k outcome s)"
  by (auto simp: playTrack_settle_def clock_owned_iff Let_def split: sum.splits)

lemma sdk_owned:
  "clock_owned s \<Longrightarrow> clock_owned (sdk_ready d s)"
  "clock_owned s \<Longrightarrow> clock_owned (sdk_not_ready s)"
  "clock_owned s \<Longrightarrow> clock_owned (sdk_player_state_changed st s)"
  by (auto simp: sdk_ready_def sdk_not_ready_def sdk_player_state_changed_def clock_owned_iff
           split: option.splits)

lemma stopPolling_owned:
  "clock_owned s \<Longrightarrow> clock_owned (stopPolling s)"
  by (auto simp: stopPolling_def clock_owned_iff Let_def split: option.splits)

lemma startPolling_owned:
  "clock_owned s \<Longrightarrow> clock_owned (startPolling s)"
  by (auto simp: startPolling_def stopPolling_def clock_owned_iff Let_def split_beta
           split: option.splits)

lemma clock_owned_step:
  assumes "clock_owned s" and "step e s = Some s'"
  shows "clock_owned s'"
proof (cases e)
  case (PollDone now fetched)
  with assms pollPlaybackState_owned show ?thesis by auto
next
  case (TimerFired t now)
  with assms fire_owned show ?thesis by auto
next
  case (ToggleCall now)
  with assms togglePlayPause_owned show ?thesis by auto
next
  case (ToggleDone k outcome)
  with assms togglePlayPause_settle_owned show ?thesis by (auto split: option.splits)
next
  case (PlayTrackCall now tid)
  with assms playTrack_owned show ?thesis by auto
next
  case (PlayDeviceDone k at fetched)
  with assms playTrack_device_owned [of s k _ _ fetched] show ?thesis
    by (auto simp: Let_def clock_owned_iff split: option.splits play_frame.splits if_splits)
next
  case (PlayDone k at outcome)
  with assms playTrack_settle_owned [of s k outcome] show ?thesis
    by (auto simp: clock_owned_iff split: option.splits play_frame.splits)
next
  case (SdkToggleDone outcome)
  with assms show ?thesis by auto
next
  case (SdkReady d)
  with assms sdk_owned show ?thesis by auto
next
  case SdkNotReady
  with assms sdk_owned show ?thesis by auto
next
  case (SdkStateChanged st)
  with assms sdk_owned show ?thesis by auto
next
  case InitPlayer
  with assms show ?thesis by (auto simp: clock_owned_iff)
next
  case StartPolling
  with assms startPolling_owned show ?thesis by auto
next
  case StopPolling
  with assms stopPolling_owned show ?thesis by auto
qed

lemma clock_owned_run:
  "clock_owned s \<Longrightarrow> run es s = Some s' \<Longrightarrow> clock_owned s'"
proof (induction es arbitrary: s)
  case Nil
  then show ?case by simp
next
  case (Cons e es)
  then show ?case by (auto split: option.splits dest: clock_owned_step)
qed

subsection \<open>Emitted positions\<close>

lemma emitted_step:
  assumes "step e s = Some s'"
  shows "emitted s' = emitted s \<or>
         (\<exists>t now. e = TimerFired t now \<and> map_of (timers s) t = Some ProgressCb \<and>
            pollSyncPos s + (now - pollSyncAt s) \<le> pollDuration s \<and>
            emitted s' = emitted s @ [(pollSyncPos s + (now - pollSyncAt s), pollDuration s)])"
proof (cases e)
  case (PollDone now fetched)
  with assms show ?thesis
    by (auto simp: pollPlaybackState_def Let_def split_beta split: sum.splits option.splits)
next
  case (TimerFired t now)
  with assms show ?thesis
    by (auto simp: fire_def progressTick_def Let_def
             split: option.splits callback.splits if_splits)
next
  case (ToggleCall now)
  with assms show ?thesis by (auto simp: togglePlayPause_def Let_def)
next
  case (ToggleDone k outcome)
  with assms show ?thesis
    by (auto simp: togglePlayPause_settle_def Let_def split: option.splits sum.splits)
next
  case (PlayTrackCall now tid)
  with assms show ?thesis by (auto simp: playTrack_def)
next
  case (PlayDeviceDone k at fetched)
  with assms show ?thesis
    by (auto simp: playTrack_device_def Let_def split: option.splits play_frame.splits if_splits)
next
  case (PlayDone k at outcome)
  with assms show ?thesis
    by (auto simp: playTrack_settle_def Let_def split: option.splits play_frame.splits sum.splits)
next
  case (SdkToggleDone outcome)
  with assms show ?thesis by auto
next
  case (SdkReady d)
  with assms show ?thesis by (auto simp: sdk_ready_def)
next
  case SdkNotReady
  with assms show ?thesis by (auto simp: sdk_not_ready_def)
next
  case (SdkStateChanged st)
  with assms show ?thesis by (auto simp: sdk_player_state_changed_def split: option.splits)
next
  case InitPlayer
  with assms show ?thesis by auto
next
  case StartPolling
  with assms show ?thesis by (auto simp: startPolling_def stopPolling_def Let_def split_beta)
next
  case StopPolling
  with assms show ?thesis by (auto simp: stopPolling_def Let_def)
qed

lemma emitted_ok_step:
  "emitted_ok s \<Longrightarrow> step e s = Some s' \<Longrightarrow> emitted_ok s'"
  using emitted_step [of e s s'] by (auto simp: emitted_ok_def)

lemma emitted_ok_run:
  "emitted_ok s \<Longrightarrow> run es s = Some s' \<Longrightarrow> emitted_ok s'"
proof (induction es arbitrary: s)
  case Nil
  then show ?case by simp
next
  case (Cons e es)
  then show ?case by (auto split: option.splits dest: emitted_ok_step)
qed

subsection \<open>A stopped clock\<close>

text \<open>Only a poll that finds the track playing makes an interpolation timer live.\<close>

lemma togglePlayPause_timers:
  "set (timers (togglePlayPause now s)) \<subseteq> set (timers s)"
  by (auto simp: togglePlayPause_def Let_def split: option.splits if_splits)

lemma stopped_step:
  assumes "\<not> clock_running s" and "\<not> restarts_clock e" and "step e s = Some s'"
  shows "\<not> clock_running s' \<and> emitted s' = emitted s"
proof -
  from assms(1) have none: "\<And>t. map_of (timers s) t \<noteq> Some ProgressCb"
    by (auto simp: clock_running_iff dest: map_of_SomeD)
  with emitted_step [OF assms(3)] have "emitted s' = emitted s" by auto
  moreover have "\<not> clock_running s'"
  proof (cases e)
    case (PollDone now fetched)
    with assms show ?thesis
      by (cases fetched)
         (auto simp: pollPlaybackState_def clock_running_iff Let_def split_beta
               split: option.splits)
  next
    case (TimerFired t now)
    with assms none [of t] show ?thesis
      by (auto simp: fire_def clock_running_iff Let_def
               split: option.splits callback.splits if_splits)
  next
    case (ToggleCall now)
    with assms togglePlayPause_timers [of now s] show ?thesis
      by (auto simp: clock_running_iff)
  next
    case (ToggleDone k outcome)
    with assms show ?thesis
      by (auto simp: toggle_settle_fields clock_running_iff split: option.splits)
  next
    case (PlayTrackCall now tid)
    with assms show ?thesis by (auto simp: playTrack_def clock_running_iff split: if_splits)
  next
    case (PlayDeviceDone k at fetched)
    with assms show ?thesis
      by (auto simp: playTrack_device_def clock_running_iff Let_def
               split: option.splits play_frame.splits if_splits)
  next
    case (PlayDone k at outcome)
    with assms show ?thesis
      by (auto simp: playTrack_settle_def clock_running_iff Let_def
               split: option.splits play_frame.splits sum.splits)
  next
    case (SdkToggleDone outcome)
    with assms show ?thesis by auto
  next
    case (SdkReady d)
    with assms show ?thesis by (auto simp: sdk_ready_def clock_running_iff)
  next
    case SdkNotReady
    with assms show ?thesis by (auto simp: sdk_not_ready_def clock_running_iff)
  next
    case (SdkStateChanged st)
    with assms show ?thesis
      by (auto simp: sdk_player_state_changed_def clock_running_iff split: option.splits)
  next
    case InitPlayer
    with assms show ?thesis by (auto simp: clock_running_iff)
  next
    case StartPolling
    with assms show ?thesis
      by (auto simp: startPolling_def stopPolling_def clock_running_iff Let_def split_beta
               split: option.splits)
  next
    case StopPolling
    with assms show ?thesis
      by (auto simp: stopPolling_def clock_running_iff Let_def split: option.splits)
  qed
  ultimately show ?thesis by simp
qed

lemma stopped_run:
  "\<not> clock_running s \<Longrightarrow> \<forall>e\<in>set es. \<not> restarts_clock e \<Longrightarrow> run es s = Some s' \<Longrightarrow>
   \<not> clock_running s' \<and> emitted s' = emitted s"
proof (induction es arbitrary: s)
  case Nil
  then show ?case by simp
next
  case (Cons e es)
  from Cons.prems(3) obtain s1 where e: "step e s = Some s1" and r: "run es s1 = Some s'"
    by (auto split: option.splits)
  from Cons.prems(2) have ne: "\<not> restarts_clock e" and nes: "\<forall>e\<in>set es. \<not> restarts_clock e"
    by simp_all
  from stopped_step [OF Cons.prems(1) ne e]
  have s1: "\<not> clock_running s1" "emitted s1 = emitted s" by simp_all
  from Cons.IH [OF s1(1) nes r] s1 show ?case by simp
qed

subsection \<open>The timestamp of playTrack\<close>

lemma lastPlayTrackTime_step:
  assumes "step e s = Some s'" and "\<not> is_play_call e"
  shows "lastPlayTrackTime s' = lastPlayTrackTime s"
proof (cases e)
  case (PollDone now fetched)
  with assms show ?thesis
    by (auto simp: pollPlaybackState_def Let_def split_beta split: sum.splits option.splits)
next
  case (TimerFired t now)
  with assms show ?thesis
    by (auto simp: fire_def progressTick_def Let_def
             split: option.splits callback.splits if_splits)
next
  case (ToggleCall now)
  with assms show ?thesis by (auto simp: togglePlayPause_def Let_def)
next
  case (ToggleDone k outcome)
  with assms show ?thesis
    by (auto simp: togglePlayPause_settle_def Let_def split: option.splits sum.splits)
next
  case (PlayTrackCall now tid)
  with assms show ?thesis by simp
next
  case (PlayDeviceDone k at fetched)
  with assms show ?thesis
    by (auto simp: playTrack_device_def Let_def split: option.splits play_frame.splits if_splits)
next
  case (PlayDone k at outcome)
  with assms show ?thesis
    by (auto simp: playTrack_settle_def Let_def split: option.splits play_frame.splits sum.splits)
next
  case (SdkToggleDone outcome)
  with assms show ?thesis by auto
next
  case (SdkReady d)
  with assms show ?thesis by (auto simp: sdk_ready_def)
next
  case SdkNotReady
  with assms show ?thesis by (auto simp: sdk_not_ready_def)
next
  case (SdkStateChanged st)
  with assms show ?thesis by (auto simp: sdk_player_state_changed_def split: option.splits)
next
  case InitPlayer
  with assms show ?thesis by auto
next
  case StartPolling
  with assms show ?thesis by (auto simp: startPolling_def stopPolling_def Let_def split_beta)
next
  case StopPolling
  with assms show ?thesis by (auto simp: stopPolling_def Let_def)
qed

lemma lastPlayTrackTime_run:
  "run es s = Some s' \<Longrightarrow> \<forall>e\<in>set es. \<not> is_play_call e \<Longrightarrow>
   lastPlayTrackTime s' = lastPlayTrackTime s"
proof (induction es arbitrary: s)
  case Nil
  then show ?case by simp
next
  case (Cons e es)
  from Cons.prems(1) obtain s1 where e: "step e s = Some s1" and r: "run es s1 = Some s'"
    by (auto split: option.splits)
  from Cons.prems(2) have ne: "\<not> is_play_call e" and nes: "\<forall>e\<in>set es. \<not> is_play_call e"
    by simp_all
  from lastPlayTrackTime_step [OF e ne] Cons.IH [OF r nes] show ?case by simp
qed

subsection \<open>The toggle invariant and the loaded page\<close>

lemma toggle_inv_view:
  "toggleFrames s' = toggleFrames s \<Longrightarrow> playbackCommandPending s' = playbackCommandPending s \<Longrightarrow>
   toggle_inv s \<Longrightarrow> toggle_inv s'"
  by (simp add: toggle_inv_def)

lemma togglePlayPause_inv:
  "toggle_inv s \<Longrightarrow> toggle_inv (togglePlayPause now s)"
  by (simp add: toggle_inv_def togglePlayPause_def Let_def)

lemma toggle_inv_step:
  assumes "toggle_inv s" and "step e s = Some s'"
  shows "toggle_inv s'"
proof (cases e)
  case (PollDone now fetched)
  with assms pollPlaybackState_toggle_view [of now fetched s] show ?thesis
    by (auto intro: toggle_inv_view)
next
  case (TimerFired t now)
  with assms fire_toggle_view [of t now s s'] show ?thesis
    by (auto intro: toggle_inv_view)
next
  case (ToggleCall now)
  with assms togglePlayPause_inv [of s now] show ?thesis by auto
next
  case (ToggleDone k outcome)
  with assms show ?thesis
    by (cases "toggleFrames s")
       (auto simp: toggle_inv_def toggle_settle_fields nth_opt_def remove_nth_def
             split: if_splits)
next
  case (PlayTrackCall now tid)
  with assms playTrack_toggle_view [of now tid s] show ?thesis
    by (auto intro: toggle_inv_view)
next
  case (PlayDeviceDone k at fetched)
  with assms show ?thesis
    using playTrack_device_toggle_view [of k _ _ fetched s]
    by (auto simp: toggle_inv_def Let_def split: option.splits play_frame.splits if_splits)
next
  case (PlayDone k at outcome)
  with assms playTrack_settle_toggle_view [of k outcome s] show ?thesis
    by (auto simp: toggle_inv_def split: option.splits play_frame.splits)
next
  case (SdkToggleDone outcome)
  with assms show ?thesis by simp
next
  case (SdkReady d)
  with assms sdk_toggle_view [of d s] show ?thesis by (auto intro: toggle_inv_view)
next
  case SdkNotReady
  with assms sdk_toggle_view [of _ s] show ?thesis by (auto intro: toggle_inv_view)
next
  case (SdkStateChanged st)
  with assms sdk_toggle_view [of _ s st] show ?thesis by (auto intro: toggle_inv_view)
next
  case InitPlayer
  with assms show ?thesis by (auto simp: toggle_inv_def)
next
  case StartPolling
  with assms startPolling_toggle_view [of s] show ?thesis by (auto intro: toggle_inv_view)
next
  case StopPolling
  with assms stopPolling_toggle_view [of s] show ?thesis by (auto intro: toggle_inv_view)
qed

lemma toggle_inv_run:
  "toggle_inv s \<Longrightarrow> run es s = Some s' \<Longrightarrow> toggle_inv s'"
proof (induction es arbitrary: s)
  case Nil
  then show ?case by simp
next
  case (Cons e es)
  then show ?case by (auto split: option.splits dest: toggle_inv_step)
qed

lemma loaded_invariants:
  "toggle_inv (loaded lib cs)" "clock_owned (loaded lib cs)" "emitted_ok (loaded lib cs)"
  by (simp_all add: toggle_inv_def clock_owned_def emitted_ok_def loaded_def)

lemma playing_poll_starts_clock:
  "item st = Some track \<Longrightarrow> is_playing st \<Longrightarrow>
   clock_running (pollPlaybackState now (Inr (Some st)) s)"
  by (simp add: pollPlaybackState_def clock_running_def Let_def split_beta)

section \<open>The claims\<close>

text \<open>
  C1, as stated, fails. With the SDK player ready, \<^verbatim>\<open>togglePlayPause\<close> at \<open>1000000\<close>
  calls \<^verbatim>\<open>spotifyPlayer.togglePlay()\<close> without awaiting it and returns with the pending
  flag clear: the flag is cleared although the command has not settled (no
  \<open>SdkToggleDone\<close> has happened). A second invocation 500 ms later is accepted and issues
  a second command while the first is unsettled; if the SDK device has gone in between,
  the second command is a remote pause request, again issued while the first is
  unsettled. Also, without a token \<^verbatim>\<open>spotifyFetch\<close> sends nothing: of two invocations on
  the remote path, the second made while the first is pending, one request is handed to
  \<^verbatim>\<open>spotifyFetch\<close> and none is sent. The tuples are the pending flag, the number of
  suspended invocations and the commands issued.
\<close>

theorem overlapping_toggles_counterexample:
  "map_option flag_suspended_issued
     (run [InitPlayer, SdkReady ''dev1'', ToggleCall 1000000] fresh)
     = Some (False, 0, [SdkToggleCmd]) \<and>
   map_option flag_suspended_issued
     (run [InitPlayer, SdkReady ''dev1'', ToggleCall 1000000, ToggleCall 1000500] fresh)
     = Some (False, 0, [SdkToggleCmd, SdkToggleCmd]) \<and>
   map_option flag_suspended_issued
     (run [InitPlayer, SdkReady ''dev1'', ToggleCall 1000000, SdkNotReady,
           ToggleCall 1000500] fresh)
     = Some (True, 1, [SdkToggleCmd, PauseCmd]) \<and>
   spotifyFetch None (Inr ()) = (False, Inl ''Not authenticated'') \<and>
   map_option flag_suspended_issued
     (run [ToggleCall 1000000, ToggleCall 1000010,
           ToggleDone 0 (snd (spotifyFetch None (Inr ())))] fresh)
     = Some (False, 0, [PlayCmd])"
  by code_simp

text \<open>
  C1, amended. Take any state in which at most one \<^verbatim>\<open>togglePlayPause\<close> invocation is
  suspended and the pending flag tells whether one is (\<open>toggle_inv\<close>). A first invocation
  at \<open>t1\<close> passes both guards and, no SDK session being connected, hands its play or
  pause request to \<^verbatim>\<open>spotifyFetch\<close>: when it suspends on the request the flag is already
  set. Let any events \<open>es\<close> follow, among them further calls of \<^verbatim>\<open>togglePlayPause\<close>, but
  not the settling of the request. Then the flag is still set and exactly one invocation
  is suspended; a second invocation at any time \<open>t2\<close> returns the state unchanged, so
  that the two invocations together have handed exactly one play or pause request to
  \<^verbatim>\<open>spotifyFetch\<close>; and the flag is cleared, and no invocation is left suspended, once the
  request settles, whether it succeeded or failed. Whatever events happen from the first
  state on, at no time is more than one \<^verbatim>\<open>togglePlayPause\<close> invocation suspended on a
  request. \<^verbatim>\<open>spotifyFetch\<close> sends the request it is handed exactly when it has a token.
  With an SDK session connected (state \<open>sd\<close>, time \<open>td\<close>) an invocation that passes the
  guards issues the SDK toggle and returns with the flag clear and nothing suspended: the
  flag does not wait for that command.
\<close>

theorem toggle_mutual_exclusion:
  assumes "toggle_inv s0"
    and "\<not> playbackCommandPending s0"
    and "\<not> t1 - lastPlaybackCommandTime s0 < 500"
    and "\<not> (spotifyPlayer s0 \<and> truthy (sdkDeviceId s0))"
    and "run es (togglePlayPause t1 s0) = Some s"
    and "\<forall>e\<in>set es. \<not> is_toggle_done e"
  shows "playbackCommandPending (togglePlayPause t1 s0) \<and>
         length (toggleFrames (togglePlayPause t1 s0)) = 1 \<and>
         playbackCommandPending s \<and> length (toggleFrames s) = 1 \<and>
         togglePlayPause t2 s = s \<and>
         toggle_requests (togglePlayPause t2 s) = Suc (toggle_requests s0) \<and>
         map_option playbackCommandPending (step (ToggleDone 0 outcome) s) = Some False \<and>
         map_option toggleFrames (step (ToggleDone 0 outcome) s) = Some [] \<and>
         (\<forall>es' s'. run es' s0 = Some s' \<longrightarrow> length (toggleFrames s') \<le> 1) \<and>
         fst (spotifyFetch token exchange) = truthy token \<and>
         (spotifyPlayer sd \<and> truthy (sdkDeviceId sd) \<and> \<not> playbackCommandPending sd \<and>
          \<not> td - lastPlaybackCommandTime sd < 500 \<longrightarrow>
            \<not> playbackCommandPending (togglePlayPause td sd) \<and>
            toggleFrames (togglePlayPause td sd) = toggleFrames sd \<and>
            issued (togglePlayPause td sd) = issued sd @ [SdkToggleCmd])"
proof -
  from assms(1,2) have empty: "toggleFrames s0 = []" by (simp add: toggle_inv_def)
  let ?f = "\<lparr>tf_now = t1, tf_prevPaused = lastPaused s0, tf_ppBtn = barLoggedIn s0\<rparr>"
  have p0: "playbackCommandPending (togglePlayPause t1 s0)"
    by (rule togglePlayPause_remote [OF assms(2,3,4)])
  from togglePlayPause_suspends [OF assms(2) p0] empty
  have fr: "toggleFrames (togglePlayPause t1 s0) = [?f]"
    and rq: "toggle_requests (togglePlayPause t1 s0) = Suc (toggle_requests s0)"
    by simp_all
  from suspended_run [OF fr p0 assms(5,6)] rq
  have fs: "toggleFrames s = [?f]" and p: "playbackCommandPending s"
    and rs: "toggle_requests s = Suc (toggle_requests s0)"
    by simp_all
  from p have noop: "togglePlayPause t2 s = s" by (simp add: togglePlayPause_def)
  have settle: "map_option playbackCommandPending (step (ToggleDone 0 outcome) s) = Some False"
    "map_option toggleFrames (step (ToggleDone 0 outcome) s) = Some []"
    using fs by (simp_all add: nth_opt_def toggle_settle_fields remove_nth_def)
  have always: "\<forall>es' s'. run es' s0 = Some s' \<longrightarrow> length (toggleFrames s') \<le> 1"
    using toggle_inv_run [OF assms(1)] by (auto simp: toggle_inv_def)
  have sent: "fst (spotifyFetch token exchange) = truthy token"
    by (simp add: spotifyFetch_def)
  have sdk: "spotifyPlayer sd \<and> truthy (sdkDeviceId sd) \<and> \<not> playbackCommandPending sd \<and>
          \<not> td - lastPlaybackCommandTime sd < 500 \<longrightarrow>
            \<not> playbackCommandPending (togglePlayPause td sd) \<and>
            toggleFrames (togglePlayPause td sd) = toggleFrames sd \<and>
            issued (togglePlayPause td sd) = issued sd @ [SdkToggleCmd]"
    by (auto simp: togglePlayPause_def Let_def)
  from p0 fr fs p have first: "playbackCommandPending (togglePlayPause t1 s0)"
    "length (toggleFrames (togglePlayPause t1 s0)) = 1"
    "playbackCommandPending s" "length (toggleFrames s) = 1"
    by simp_all
  from noop rs have second: "togglePlayPause t2 s = s"
    "toggle_requests (togglePlayPause t2 s) = Suc (toggle_requests s0)"
    by simp_all
  from first second settle always sent sdk show ?thesis by blast
qed

theorem toggle_mutual_exclusion_witness:
  "\<exists>s. run [PollDone 1000003 (Inl ''Not authenticated''), ToggleCall 1000006, SdkNotReady]
          (togglePlayPause 1000000 fresh) = Some s \<and>
       playbackCommandPending s \<and> length (toggleFrames s) = 1 \<and>
       togglePlayPause 1000010 s = s \<and>
       toggle_requests (togglePlayPause 1000010 s) = 1 \<and>
       map_option playbackCommandPending (step (ToggleDone 0 (Inr ())) s) = Some False \<and>
       length (toggleFrames (togglePlayPause 1000010 s)) \<le> 1 \<and>
       fst (spotifyFetch (Some ''BQD-token'') (Inr ())) \<and>
       \<not> playbackCommandPending
           (togglePlayPause 1000000 (sdk_ready ''dev1'' (fresh\<lparr>spotifyPlayer := True\<rparr>))) \<and>
       issued (togglePlayPause 1000000 (sdk_ready ''dev1'' (fresh\<lparr>spotifyPlayer := True\<rparr>)))
         = [SdkToggleCmd]"
proof -
  let ?es = "[PollDone 1000003 (Inl ''Not authenticated''), ToggleCall 1000006, SdkNotReady]"
  let ?sd = "sdk_ready ''dev1'' (fresh\<lparr>spotifyPlayer := True\<rparr>)"
  have h1: "toggle_inv fresh" by code_simp
  have h2: "\<not> playbackCommandPending fresh" by code_simp
  have h3: "\<not> 1000000 - lastPlaybackCommandTime fresh < 500" by code_simp
  have h4: "\<not> (spotifyPlayer fresh \<and> truthy (sdkDeviceId fresh))" by code_simp
  obtain s where h5: "run ?es (togglePlayPause 1000000 fresh) = Some s" by simp
  have h6: "\<forall>e\<in>set ?es. \<not> is_toggle_done e" by simp
  have z: "toggle_requests fresh = 0" by code_simp
  have h7: "run (ToggleCall 1000000 # ?es @ [ToggleCall 1000010]) fresh
              = Some (togglePlayPause 1000010 s)"
    using h5 by simp
  have k: "spotifyPlayer ?sd" "truthy (sdkDeviceId ?sd)" "\<not> playbackCommandPending ?sd"
    "\<not> 1000000 - lastPlaybackCommandTime ?sd < 500" "issued ?sd = []"
    "truthy (Some ''BQD-token'')"
    by code_simp+
  note c = toggle_mutual_exclusion [OF h1 h2 h3 h4 h5 h6,
      of 1000010 "Inr ()" "Some ''BQD-token''" "Inr ()" ?sd 1000000]
  from c z
  have "playbackCommandPending s" and "length (toggleFrames s) = 1"
    and "togglePlayPause 1000010 s = s"
    and "toggle_requests (togglePlayPause 1000010 s) = 1"
    and "map_option playbackCommandPending (step (ToggleDone 0 (Inr ())) s) = Some False"
    by auto
  moreover from c h7 have "length (toggleFrames (togglePlayPause 1000010 s)) \<le> 1"
    by blast
  moreover from c k have "fst (spotifyFetch (Some ''BQD-token'') (Inr ()))"
    and "\<not> playbackCommandPending (togglePlayPause 1000000 ?sd)"
    and "issued (togglePlayPause 1000000 ?sd) = [SdkToggleCmd]"
    by simp_all
  ultimately show ?thesis using h5 by blast
qed

text \<open>
  C2, as stated, fails. The SDK player becomes ready and its status message is cleared
  after its delay; a poll finds the track playing and sets the button to the pause glyph;
  an SDK \<^verbatim>\<open>player_state_changed\<close> event reports the player paused, which sets
  \<^verbatim>\<open>lastPaused\<close> to true and leaves the button alone; the SDK device goes away.
  \<^verbatim>\<open>togglePlayPause\<close> is then invoked with \<^verbatim>\<open>lastPaused = true\<close>, takes the remote path,
  and its play request is rejected with the message
  \<^verbatim>\<open>Player command failed: Restriction violated\<close>. Afterwards \<^verbatim>\<open>lastPaused\<close> is true
  again, but the button shows the play glyph, which is not its text before the invocation,
  and the status line is as empty as it was: \<^verbatim>\<open>setStatusError\<close> classifies the message
  as transient and only logs it. The first tuple is the state before the invocation, the
  second the state after it has settled: \<^verbatim>\<open>lastPaused\<close>, the button, the text and the
  class of the status line, and the requests made.
\<close>

theorem failed_play_counterexample:
  "map_option belief_button_status
     (run [InitPlayer, SdkReady ''dev1'', TimerFired 1 999000,
           PollDone 1000000 (Inr (Some playing_snapshot)),
           SdkStateChanged (Some \<lparr>current_track_id = Some ''abc'', paused = True\<rparr>),
           SdkNotReady] fresh)
     = Some (True, PauseGlyph, [], ''status ok'', []) \<and>
   map_option belief_button_status
     (run [InitPlayer, SdkReady ''dev1'', TimerFired 1 999000,
           PollDone 1000000 (Inr (Some playing_snapshot)),
           SdkStateChanged (Some \<lparr>current_track_id = Some ''abc'', paused = True\<rparr>),
           SdkNotReady,
           ToggleCall 1001000,
           ToggleDone 0 (Inl ''Player command failed: Restriction violated'')] fresh)
     = Some (True, PlayGlyph, [], ''status ok'', [PlayCmd])"
  by code_simp

text \<open>
  C2, amended. An invocation of \<^verbatim>\<open>togglePlayPause\<close> with \<^verbatim>\<open>lastPaused = true\<close> passes the
  guards and takes the remote path; whatever happens before its request settles, the
  request is rejected with message \<open>msg\<close>. Then the resumption runs, and after it
  \<^verbatim>\<open>lastPaused\<close> is true again; the button, if the bar was there at the invocation, shows
  the play glyph, which is its text before the invocation whenever that text agreed with
  \<^verbatim>\<open>lastPaused\<close>; the pending flag is clear; and the message (or \<^verbatim>\<open>Playback failed\<close> when
  it is empty) is the text of the status line, with the error class, unless
  \<^verbatim>\<open>isTransientError\<close> holds of it, in which case the status line is untouched.
\<close>

theorem failed_play_rolls_back:
  assumes "toggle_inv s0"
    and "\<not> playbackCommandPending s0" and "\<not> now - lastPlaybackCommandTime s0 < 500"
    and "\<not> (spotifyPlayer s0 \<and> truthy (sdkDeviceId s0))"
    and "lastPaused s0"
    and "run es (togglePlayPause now s0) = Some s1"
    and "\<forall>e\<in>set es. \<not> is_toggle_done e"
  shows "\<exists>s2. step (ToggleDone 0 (Inl msg)) s1 = Some s2 \<and>
           lastPaused s2 \<and>
           (barLoggedIn s0 \<longrightarrow> ppBtnText s2 = PlayGlyph) \<and>
           (barLoggedIn s0 \<and> ppBtnText s0 = glyph_of (lastPaused s0) \<longrightarrow>
              ppBtnText s2 = ppBtnText s0) \<and>
           (\<not> isTransientError (message_or msg ''Playback failed'') \<longrightarrow>
              statusText s2 = message_or msg ''Playback failed'' \<and>
              statusClass s2 = ''status error'') \<and>
           (isTransientError (message_or msg ''Playback failed'') \<longrightarrow>
              statusText s2 = statusText s1 \<and> statusClass s2 = statusClass s1) \<and>
           \<not> playbackCommandPending s2"
proof -
  from assms(1,2) have empty: "toggleFrames s0 = []" by (simp add: toggle_inv_def)
  let ?f = "\<lparr>tf_now = now, tf_prevPaused = lastPaused s0, tf_ppBtn = barLoggedIn s0\<rparr>"
  let ?s = "togglePlayPause now s0"
  have p: "playbackCommandPending ?s"
    by (rule togglePlayPause_remote [OF assms(2,3,4)])
  from togglePlayPause_suspends [OF assms(2) p] empty
  have fr: "toggleFrames ?s = [?f]" by simp
  from suspended_run [OF fr p assms(6,7)]
  have fr1: "toggleFrames s1 = [?f]" by simp
  let ?t = "togglePlayPause_settle 0 ?f (Inl msg) s1"
  have st: "step (ToggleDone 0 (Inl msg)) s1 = Some ?t"
    using fr1 by (simp add: nth_opt_def)
  have "statusText ?t = (if isTransientError (message_or msg ''Playback failed'')
                         then statusText s1 else message_or msg ''Playback failed'')"
    and "statusClass ?t = (if isTransientError (message_or msg ''Playback failed'')
                         then statusClass s1 else ''status error'')"
    by (simp_all add: togglePlayPause_settle_def Let_def setStatusError_def)
  moreover have "lastPaused ?t" and "barLoggedIn s0 \<longrightarrow> ppBtnText ?t = PlayGlyph"
    and "barLoggedIn s0 \<and> ppBtnText s0 = glyph_of (lastPaused s0) \<longrightarrow> ppBtnText ?t = ppBtnText s0"
    and "\<not> playbackCommandPending ?t"
    using assms(5) by (simp_all add: toggle_settle_fields glyph_of_def)
  ultimately show ?thesis using st by simp
qed

theorem failed_play_rolls_back_witness:
  "\<exists>s1 s2. run [PollDone 1000003 (Inr (Some paused_snapshot))] (togglePlayPause 1000000 fresh)
             = Some s1 \<and>
     step (ToggleDone 0 (Inl ''Device not found'')) s1 = Some s2 \<and>
     lastPaused s2 \<and> ppBtnText s2 = PlayGlyph \<and> ppBtnText s2 = ppBtnText fresh \<and>
     statusText s2 = ''Device not found'' \<and> statusClass s2 = ''status error'' \<and>
     \<not> playbackCommandPending s2"
proof -
  let ?es = "[PollDone 1000003 (Inr (Some paused_snapshot))]"
  have h1: "toggle_inv fresh" by code_simp
  have h2: "\<not> playbackCommandPending fresh" by code_simp
  have h3: "\<not> 1000000 - lastPlaybackCommandTime fresh < 500" by code_simp
  have h4: "\<not> (spotifyPlayer fresh \<and> truthy (sdkDeviceId fresh))" by code_simp
  have h5: "lastPaused fresh" by code_simp
  obtain s1 where h6: "run ?es (togglePlayPause 1000000 fresh) = Some s1" by simp
  have h7: "\<forall>e\<in>set ?es. \<not> is_toggle_done e" by simp
  have v: "barLoggedIn fresh" "ppBtnText fresh = glyph_of (lastPaused fresh)"
    "\<not> isTransientError (message_or ''Device not found'' ''Playback failed'')"
    "message_or ''Device not found'' ''Playback failed'' = ''Device not found''"
    by code_simp+
  from failed_play_rolls_back [OF h1 h2 h3 h4 h5 h6 h7, of "''Device not found''"] v
  obtain s2 where "step (ToggleDone 0 (Inl ''Device not found'')) s1 = Some s2"
    and "lastPaused s2" and "ppBtnText s2 = PlayGlyph" and "ppBtnText s2 = ppBtnText fresh"
    and "statusText s2 = ''Device not found''" and "statusClass s2 = ''status error''"
    and "\<not> playbackCommandPending s2"
    by auto
  with h6 show ?thesis by blast
qed

text \<open>
  C3. Start in a state where every live interpolation timer is the one whose handle
  \<^verbatim>\<open>progressTimer\<close> holds (\<open>clock_owned\<close>) and every position recorded so far is within
  its duration, and let any events happen. Then every position the interpolation tick has
  handed to \<^verbatim>\<open>updateProgressEl\<close> is at most the duration it was handed with. When a live
  interpolation timer \<open>t\<close> fires at time \<open>now\<close>, with
  \<open>est = pollSyncPos + (now - pollSyncAt)\<close>: if \<open>est \<le> pollDuration\<close> the tick hands
  \<open>(est, pollDuration)\<close> to \<^verbatim>\<open>updateProgressEl\<close> and nothing else changes; otherwise it
  emits nothing, the progress display stays as it was, and no interpolation timer is live
  afterwards: the clock has stopped itself.
\<close>

theorem interpolation_bound:
  assumes "clock_owned s0" and "emitted_ok s0" and "run es s0 = Some s"
    and "map_of (timers s) t = Some ProgressCb"
  shows "emitted_ok s \<and>
    (let est = pollSyncPos s + (now - pollSyncAt s) in
     if est \<le> pollDuration s
     then step (TimerFired t now) s =
            Some ((updateProgressEl est (pollDuration s) s)
                    \<lparr>emitted := emitted s @ [(est, pollDuration s)]\<rparr>)
     else map_option emitted (step (TimerFired t now) s) = Some (emitted s) \<and>
          map_option progressEl (step (TimerFired t now) s) = Some (progressEl s) \<and>
          map_option clock_running (step (TimerFired t now) s) = Some False)"
proof -
  have "clock_owned s" by (rule clock_owned_run [OF assms(1,3)])
  then have "\<not> clock_running (clearInterval (progressTimer s) s)" by (rule clear_own_stops)
  moreover have "emitted_ok s" by (rule emitted_ok_run [OF assms(2,3)])
  ultimately show ?thesis using assms(4)
    by (simp add: fire_def progressTick_def Let_def clearInterval_def split: option.splits)
qed

theorem interpolation_bound_witness:
  "run [PollDone 1000000 (Inr (Some playing_snapshot))] fresh = Some now_playing \<and>
   emitted_ok now_playing \<and>
   step (TimerFired 1 1002000) now_playing =
     Some ((updateProgressEl 7000 200000 now_playing)\<lparr>emitted := [(7000, 200000)]\<rparr>) \<and>
   map_option emitted (step (TimerFired 1 1196000) now_playing) = Some [] \<and>
   map_option clock_running (step (TimerFired 1 1196000) now_playing) = Some False"
proof -
  have h1: "clock_owned fresh" by code_simp
  have h2: "emitted_ok fresh" by code_simp
  have h3: "run [PollDone 1000000 (Inr (Some playing_snapshot))] fresh = Some now_playing"
    by (simp add: now_playing_def)
  have h4: "map_of (timers now_playing) 1 = Some ProgressCb" by code_simp
  have v: "pollSyncPos now_playing = 5000" "pollSyncAt now_playing = 1000000"
    "pollDuration now_playing = 200000" "emitted now_playing = []"
    by code_simp+
  from interpolation_bound [OF h1 h2 h3 h4, of 1002000]
    interpolation_bound [OF h1 h2 h3 h4, of 1196000] h3 v
  show ?thesis by (simp add: Let_def)
qed

text \<open>
  C4, as stated, fails. On a freshly loaded page \<^verbatim>\<open>playTrack("X")\<close> is called at
  \<open>1000000\<close>; the device list arrives at \<open>1000020\<close> and the play request succeeds at
  \<open>1000450\<close>, when the invocation returns. At \<open>1000600\<close>, which is 150 ms after the
  previous invocation completed, \<^verbatim>\<open>playTrack("Y")\<close> is not rejected: it sets the pending
  flag, takes \<open>1000600\<close> as the new timestamp and suspends on the device resolver. The
  throttle counts from the call of the previous invocation, 600 ms earlier. The tuples,
  before and after the second call, are the time the last invocation returned, the pending
  flag, \<^verbatim>\<open>lastPlayTrackTime\<close> and the suspended invocations.
\<close>

theorem playTrack_completion_counterexample:
  "map_option playTrack_guard_state
     (run [PlayTrackCall 1000000 ''X'',
           PlayDeviceDone 0 1000020 (Inr [\<lparr>dev_id = ''a'', is_active = True\<rparr>]),
           PlayDone 0 1000450 (Inr ())] fresh)
     = Some (Some 1000450, False, 1000000, []) \<and>
   1000600 - 1000450 < (500::int) \<and>
   map_option playTrack_guard_state
     (run [PlayTrackCall 1000000 ''X'',
           PlayDeviceDone 0 1000020 (Inr [\<lparr>dev_id = ''a'', is_active = True\<rparr>]),
           PlayDone 0 1000450 (Inr ()),
           PlayTrackCall 1000600 ''Y''] fresh)
     = Some (Some 1000450, True, 1000600, [AwaitDevice ''Y'' None])"
  by code_simp

text \<open>
  C4, amended. \<^verbatim>\<open>playTrack\<close> returns without any effect exactly when another
  \<^verbatim>\<open>playTrack\<close> invocation is pending or the last accepted invocation was called less
  than 500 ms ago: \<^verbatim>\<open>lastPlayTrackTime\<close> is set when a call passes the guards, before
  the device is resolved, and nothing else writes it. So after \<^verbatim>\<open>playTrack("X")\<close> has been
  accepted at time \<open>t\<close>, and whatever happens next short of another \<^verbatim>\<open>playTrack\<close> call,
  \<^verbatim>\<open>playTrack("Y")\<close> at \<open>t + 400\<close> is rejected, and at \<open>t + 600\<close> it is accepted provided
  the invocation for X is no longer pending: the flag is set, the timestamp is
  \<open>t + 600\<close> and the invocation is suspended on the device resolver.
\<close>

theorem playTrack_throttle:
  "(playTrack now trackId s = s) = (playTrackPending s \<or> now - lastPlayTrackTime s < 500) \<and>
   (\<not> playTrackPending s \<and> \<not> t - lastPlayTrackTime s < 500 \<and>
    run es (playTrack t x s) = Some s' \<and> (\<forall>e\<in>set es. \<not> is_play_call e) \<longrightarrow>
      lastPlayTrackTime s' = t \<and>
      playTrack (t + 400) y s' = s' \<and>
      (\<not> playTrackPending s' \<longrightarrow>
         playTrackPending (playTrack (t + 600) y s') \<and>
         lastPlayTrackTime (playTrack (t + 600) y s') = t + 600 \<and>
         playFrames (playTrack (t + 600) y s') =
           playFrames s' @ [AwaitDevice y (sdkDeviceId s')]))"
proof -
  have a: "(playTrack now trackId s = s) = (playTrackPending s \<or> now - lastPlayTrackTime s < 500)"
  proof (cases "playTrackPending s \<or> now - lastPlayTrackTime s < 500")
    case True
    then show ?thesis by (auto simp: playTrack_def)
  next
    case False
    then have "playTrackPending (playTrack now trackId s)" by (simp add: playTrack_def)
    with False show ?thesis by auto
  qed
  have b: "lastPlayTrackTime s' = t \<and> playTrack (t + 400) y s' = s' \<and>
      (\<not> playTrackPending s' \<longrightarrow>
         playTrackPending (playTrack (t + 600) y s') \<and>
         lastPlayTrackTime (playTrack (t + 600) y s') = t + 600 \<and>
         playFrames (playTrack (t + 600) y s') =
           playFrames s' @ [AwaitDevice y (sdkDeviceId s')])"
    if h: "\<not> playTrackPending s" "\<not> t - lastPlayTrackTime s < 500"
      "run es (playTrack t x s) = Some s'" "\<forall>e\<in>set es. \<not> is_play_call e"
  proof -
    from h(1,2) have "lastPlayTrackTime (playTrack t x s) = t" by (simp add: playTrack_def)
    with lastPlayTrackTime_run [OF h(3,4)] have "lastPlayTrackTime s' = t" by simp
    then show ?thesis by (simp add: playTrack_def)
  qed
  from a b show ?thesis by blast
qed

theorem playTrack_throttle_witness:
  "playTrack 1000400 ''Y''
     (the (run [PlayDeviceDone 0 1000020 (Inr [\<lparr>dev_id = ''a'', is_active = True\<rparr>]),
                PlayDone 0 1000450 (Inr ())] (playTrack 1000000 ''X'' fresh)))
   = the (run [PlayDeviceDone 0 1000020 (Inr [\<lparr>dev_id = ''a'', is_active = True\<rparr>]),
               PlayDone 0 1000450 (Inr ())] (playTrack 1000000 ''X'' fresh)) \<and>
   playTrackPending (playTrack 1000600 ''Y''
     (the (run [PlayDeviceDone 0 1000020 (Inr [\<lparr>dev_id = ''a'', is_active = True\<rparr>]),
                PlayDone 0 1000450 (Inr ())] (playTrack 1000000 ''X'' fresh)))) \<and>
   lastPlayTrackTime (playTrack 1000600 ''Y''
     (the (run [PlayDeviceDone 0 1000020 (Inr [\<lparr>dev_id = ''a'', is_active = True\<rparr>]),
                PlayDone 0 1000450 (Inr ())] (playTrack 1000000 ''X'' fresh)))) = 1000600"
proof -
  let ?es = "[PlayDeviceDone 0 1000020 (Inr [\<lparr>dev_id = ''a'', is_active = True\<rparr>]),
              PlayDone 0 1000450 (Inr ())]"
  let ?s' = "the (run ?es (playTrack 1000000 ''X'' fresh))"
  have h1: "\<not> playTrackPending fresh" by code_simp
  have h2: "\<not> 1000000 - lastPlayTrackTime fresh < 500" by code_simp
  have h3: "run ?es (playTrack 1000000 ''X'' fresh) = Some ?s'" by code_simp
  have h4: "\<forall>e\<in>set ?es. \<not> is_play_call e" by simp
  have h5: "\<not> playTrackPending ?s'" by code_simp
  from playTrack_throttle [of _ _ fresh 1000000 ?es "''X''" ?s' "''Y''"] h1 h2 h3 h4 h5
  show ?thesis by simp
qed

text \<open>
  C5. An invocation of \<^verbatim>\<open>togglePlayPause\<close> at time \<open>now\<close> passes the guards and takes the
  remote path (no SDK session is connected). Whatever happens before its request settles,
  a rejection of the request leaves \<^verbatim>\<open>lastPlaybackCommandTime\<close> at the value it had
  before the invocation, a success sets it to \<open>now\<close>, and either way the pending flag is
  cleared: after a failure only the flag, while it was set, has held back another toggle.
\<close>

theorem toggle_timestamp_on_success_only:
  assumes "toggle_inv s0"
    and "\<not> playbackCommandPending s0"
    and "\<not> now - lastPlaybackCommandTime s0 < 500"
    and "\<not> (spotifyPlayer s0 \<and> truthy (sdkDeviceId s0))"
    and "run es (togglePlayPause now s0) = Some s"
    and "\<forall>e\<in>set es. \<not> is_toggle_done e"
  shows "map_option lastPlaybackCommandTime (step (ToggleDone 0 (Inl msg)) s)
           = Some (lastPlaybackCommandTime s0) \<and>
         map_option lastPlaybackCommandTime (step (ToggleDone 0 (Inr ())) s) = Some now \<and>
         map_option playbackCommandPending (step (ToggleDone 0 outcome) s) = Some False"
proof -
  from assms(1,2) have empty: "toggleFrames s0 = []" by (simp add: toggle_inv_def)
  let ?f = "\<lparr>tf_now = now, tf_prevPaused = lastPaused s0, tf_ppBtn = barLoggedIn s0\<rparr>"
  have p: "playbackCommandPending (togglePlayPause now s0)"
    by (rule togglePlayPause_remote [OF assms(2,3,4)])
  from togglePlayPause_suspends [OF assms(2) p] empty
  have fr: "toggleFrames (togglePlayPause now s0) = [?f]"
    and ts: "lastPlaybackCommandTime (togglePlayPause now s0) = lastPlaybackCommandTime s0"
    by simp_all
  from suspended_run [OF fr p assms(5,6)] ts
  have "toggleFrames s = [?f]" and "lastPlaybackCommandTime s = lastPlaybackCommandTime s0"
    by simp_all
  then show ?thesis by (simp add: nth_opt_def toggle_settle_fields)
qed

theorem toggle_timestamp_on_success_only_witness:
  "\<exists>s. run [PollDone 1000003 (Inl ''Not authenticated'')] (togglePlayPause 1000000 fresh) = Some s \<and>
       map_option lastPlaybackCommandTime (step (ToggleDone 0 (Inl ''Device not found'')) s) = Some 0 \<and>
       map_option lastPlaybackCommandTime (step (ToggleDone 0 (Inr ())) s) = Some 1000000 \<and>
       map_option playbackCommandPending (step (ToggleDone 0 (Inl ''Device not found'')) s)
         = Some False"
proof -
  let ?es = "[PollDone 1000003 (Inl ''Not authenticated'')]"
  have h1: "toggle_inv fresh" by code_simp
  have h2: "\<not> playbackCommandPending fresh" by code_simp
  have h3: "\<not> 1000000 - lastPlaybackCommandTime fresh < 500" by code_simp
  have h4: "\<not> (spotifyPlayer fresh \<and> truthy (sdkDeviceId fresh))" by code_simp
  obtain s where h5: "run ?es (togglePlayPause 1000000 fresh) = Some s" by simp
  have h6: "\<forall>e\<in>set ?es. \<not> is_toggle_done e" by simp
  have z: "lastPlaybackCommandTime fresh = 0" by code_simp
  from toggle_timestamp_on_success_only [OF h1 h2 h3 h4 h5 h6, of "''Device not found''" "Inl ''Device not found''"]
    z h5 show ?thesis by simp
qed

text \<open>
  C6. The device resolver returns the SDK device id when one is connected, which the code
  tests as \<^verbatim>\<open>if (sdkDeviceId)\<close>: the variable holds a non-empty string. Otherwise it
  returns the id of the first device of the remote list that is flagged active; when no
  device is flagged active, the id of the first device of the list; when the list is
  empty, \<^verbatim>\<open>null\<close>; and when fetching the list fails, \<^verbatim>\<open>null\<close> as well, the
  failure being caught. The list of the spec's scenario resolves to \<^verbatim>\<open>"b"\<close>, the empty
  list to \<^verbatim>\<open>null\<close>.
\<close>

theorem device_resolver:
  "(truthy sdk \<longrightarrow> getPlaybackDeviceId sdk fetched = sdk) \<and>
   (\<not> truthy sdk \<longrightarrow>
      (\<forall>d. find_first is_active devices = Some d \<longrightarrow>
            getPlaybackDeviceId sdk (Inr devices) = Some (dev_id d)) \<and>
      (\<forall>d ds. find_first is_active (d # ds) = None \<longrightarrow>
            getPlaybackDeviceId sdk (Inr (d # ds)) = Some (dev_id d)) \<and>
      getPlaybackDeviceId sdk (Inr []) = None \<and>
      getPlaybackDeviceId sdk (Inl e) = None) \<and>
   getPlaybackDeviceId None
      (Inr [\<lparr>dev_id = ''a'', is_active = False\<rparr>, \<lparr>dev_id = ''b'', is_active = True\<rparr>])
     = Some ''b'' \<and>
   getPlaybackDeviceId None (Inr []) = None"
  by (simp add: getPlaybackDeviceId_def truthy_def)

theorem device_resolver_witness:
  "getPlaybackDeviceId (Some ''sdk1'') (Inl ''offline'') = Some ''sdk1'' \<and>
   getPlaybackDeviceId (Some [])
      (Inr [\<lparr>dev_id = ''a'', is_active = False\<rparr>, \<lparr>dev_id = ''b'', is_active = True\<rparr>])
     = Some ''b'' \<and>
   getPlaybackDeviceId None
      (Inr [\<lparr>dev_id = ''a'', is_active = False\<rparr>, \<lparr>dev_id = ''c'', is_active = False\<rparr>])
     = Some ''a'' \<and>
   getPlaybackDeviceId None (Inl ''Not authenticated'') = None"
  using device_resolver [of "Some ''sdk1''" "Inl ''offline''"]
    device_resolver [of "Some []" _
      "[\<lparr>dev_id = ''a'', is_active = False\<rparr>, \<lparr>dev_id = ''b'', is_active = True\<rparr>]"]
    device_resolver [of None _ _ "''Not authenticated''"]
  by (simp add: truthy_def)

text \<open>
  C7, as stated, fails. A poll has found the track loaded and paused, so no interpolation
  timer is live. \<^verbatim>\<open>togglePlayPause\<close> at \<open>1002000\<close> passes the guards, flips
  \<^verbatim>\<open>lastPaused\<close> to false, puts the pause glyph on the button, hands the play request to
  \<^verbatim>\<open>spotifyFetch\<close> and suspends on it. At that point it has toggled to playing and no
  interpolation timer is live: the clock has not been started. The tuples, before and
  after the call, are \<^verbatim>\<open>lastPaused\<close>, the button, the requests made, the pending flag
  and whether the clock runs.
\<close>

theorem toggle_to_playing_counterexample:
  "map_option belief_button_clock
     (run [PollDone 1000000 (Inr (Some paused_snapshot))] fresh)
     = Some (True, PlayGlyph, [], False, False) \<and>
   map_option belief_button_clock
     (run [PollDone 1000000 (Inr (Some paused_snapshot)), ToggleCall 1002000] fresh)
     = Some (False, PauseGlyph, [PlayCmd], True, False)"
  by code_simp

text \<open>
  C7, amended. An invocation of \<^verbatim>\<open>togglePlayPause\<close> that passes the guards flips
  \<^verbatim>\<open>lastPaused\<close> and sets the button, if the bar is there, to the glyph of the new value.
  When it toggles to paused it clears the timer whose handle \<^verbatim>\<open>progressTimer\<close> holds, so
  that no interpolation timer is live; when it toggles to playing it leaves the timers as
  they are and starts none. On the remote path all of this is in place when the
  invocation suspends on the play or pause request it has just made. (The clock is started
  by the next poll that finds the track playing.)
\<close>

theorem toggle_optimistic_update:
  assumes "clock_owned s" and "\<not> playbackCommandPending s"
    and "\<not> now - lastPlaybackCommandTime s < 500"
  shows "lastPaused (togglePlayPause now s) = (\<not> lastPaused s) \<and>
         (barLoggedIn s \<longrightarrow> ppBtnText (togglePlayPause now s) = glyph_of (\<not> lastPaused s)) \<and>
         (\<not> lastPaused s \<longrightarrow> \<not> clock_running (togglePlayPause now s)) \<and>
         (lastPaused s \<longrightarrow> timers (togglePlayPause now s) = timers s) \<and>
         (\<not> (spotifyPlayer s \<and> truthy (sdkDeviceId s)) \<longrightarrow>
            playbackCommandPending (togglePlayPause now s) \<and>
            toggleFrames (togglePlayPause now s) = toggleFrames s @
              [\<lparr>tf_now = now, tf_prevPaused = lastPaused s, tf_ppBtn = barLoggedIn s\<rparr>] \<and>
            issued (togglePlayPause now s) =
              issued s @ [if lastPaused s then PlayCmd else PauseCmd])"
proof -
  have "\<not> clock_running (clearInterval (progressTimer s) s)"
    by (rule clear_own_stops [OF assms(1)])
  then have "\<not> lastPaused s \<longrightarrow> \<not> clock_running (togglePlayPause now s)"
    using assms(2,3)
    by (auto simp: togglePlayPause_def Let_def clock_running_iff split: option.splits)
  then show ?thesis using assms(2,3)
    by (simp add: togglePlayPause_def Let_def)
qed

theorem toggle_optimistic_update_witness:
  "clock_running now_playing \<and>
   lastPaused (togglePlayPause 1002000 now_playing) \<and>
   ppBtnText (togglePlayPause 1002000 now_playing) = PlayGlyph \<and>
   \<not> clock_running (togglePlayPause 1002000 now_playing) \<and>
   playbackCommandPending (togglePlayPause 1002000 now_playing) \<and>
   issued (togglePlayPause 1002000 now_playing) = [PauseCmd] \<and>
   toggleFrames (togglePlayPause 1002000 now_playing)
     = [\<lparr>tf_now = 1002000, tf_prevPaused = False, tf_ppBtn = True\<rparr>]"
proof -
  have h1: "clock_owned now_playing" by code_simp
  have h2: "\<not> playbackCommandPending now_playing" by code_simp
  have h3: "\<not> 1002000 - lastPlaybackCommandTime now_playing < 500" by code_simp
  have v: "clock_running now_playing" "\<not> lastPaused now_playing" "barLoggedIn now_playing"
    "\<not> (spotifyPlayer now_playing \<and> truthy (sdkDeviceId now_playing))"
    "issued now_playing = []" "toggleFrames now_playing = []"
    by code_simp+
  from toggle_optimistic_update [OF h1 h2 h3] v show ?thesis by (simp add: glyph_of_def)
qed

text \<open>
  C8. A poll that succeeds with an empty reply, or with a reply that has no item, clears
  the timer whose handle \<^verbatim>\<open>progressTimer\<close> holds and returns. In a state where that
  timer is the only interpolation timer there can be, no interpolation timer is live
  afterwards. Nothing but the page's set of live timers differs from the state before: the
  now-playing panel, the sync baseline, \<^verbatim>\<open>lastTrackId\<close> and \<^verbatim>\<open>lastPaused\<close> are as they
  were.
\<close>

theorem idle_poll_keeps_panel:
  assumes "clock_owned s" and "nothing_loaded r"
  shows "\<not> clock_running (pollPlaybackState now (Inr r) s) \<and>
         pollPlaybackState now (Inr r) s = s\<lparr>timers := timers (pollPlaybackState now (Inr r) s)\<rparr> \<and>
         nowPlaying (pollPlaybackState now (Inr r) s) = nowPlaying s \<and>
         pollSyncPos (pollPlaybackState now (Inr r) s) = pollSyncPos s \<and>
         pollSyncAt (pollPlaybackState now (Inr r) s) = pollSyncAt s \<and>
         pollDuration (pollPlaybackState now (Inr r) s) = pollDuration s \<and>
         lastTrackId (pollPlaybackState now (Inr r) s) = lastTrackId s \<and>
         lastPaused (pollPlaybackState now (Inr r) s) = lastPaused s"
proof -
  from assms(2) have eq: "pollPlaybackState now (Inr r) s = clearInterval (progressTimer s) s"
    by (cases r) (simp_all add: pollPlaybackState_def nothing_loaded_def)
  from clear_own_stops [OF assms(1)] eq show ?thesis
    by (simp add: clearInterval_def split: option.splits)
qed

theorem idle_poll_keeps_panel_witness:
  "clock_running now_playing \<and>
   \<not> clock_running (pollPlaybackState 1002500 (Inr None) now_playing) \<and>
   nowPlaying (pollPlaybackState 1002500 (Inr None) now_playing)
     = TrackPanel ''Sing Sing Sing'' ''Benny Goodman'' \<and>
   lastTrackId (pollPlaybackState 1002500 (Inr None) now_playing) = Some ''abc'' \<and>
   \<not> lastPaused (pollPlaybackState 1002500 (Inr None) now_playing) \<and>
   pollSyncPos (pollPlaybackState 1002500 (Inr None) now_playing) = 5000"
proof -
  have h1: "clock_owned now_playing" by code_simp
  have h2: "nothing_loaded None" by (simp add: nothing_loaded_def)
  have v: "clock_running now_playing"
    "nowPlaying now_playing = TrackPanel ''Sing Sing Sing'' ''Benny Goodman''"
    "lastTrackId now_playing = Some ''abc''" "\<not> lastPaused now_playing"
    "pollSyncPos now_playing = 5000"
    by code_simp+
  from idle_poll_keeps_panel [OF h1 h2, of 1002500] v show ?thesis by simp
qed

text \<open>
  C9. With a player object and a connected SDK device, an invocation of
  \<^verbatim>\<open>togglePlayPause\<close> that passes the guards calls \<^verbatim>\<open>spotifyPlayer.togglePlay()\<close> and runs
  to its end without suspending: the throttle timestamp is \<open>now\<close>, the paused belief and
  the button are flipped, the pending flag is clear again, and no invocation has been
  added to the suspended ones, so nothing is left that could roll the flip back. The
  promise returned by \<^verbatim>\<open>togglePlay()\<close> has no handler: whichever way it settles
  (\<open>SdkToggleDone\<close>), the state stays as it is.
\<close>

theorem sdk_toggle_commits:
  assumes "spotifyPlayer s" and "truthy (sdkDeviceId s)"
    and "\<not> playbackCommandPending s" and "\<not> now - lastPlaybackCommandTime s < 500"
  shows "lastPlaybackCommandTime (togglePlayPause now s) = now \<and>
         lastPaused (togglePlayPause now s) = (\<not> lastPaused s) \<and>
         (barLoggedIn s \<longrightarrow> ppBtnText (togglePlayPause now s) = glyph_of (\<not> lastPaused s)) \<and>
         issued (togglePlayPause now s) = issued s @ [SdkToggleCmd] \<and>
         toggleFrames (togglePlayPause now s) = toggleFrames s \<and>
         \<not> playbackCommandPending (togglePlayPause now s) \<and>
         step (SdkToggleDone outcome) (togglePlayPause now s) = Some (togglePlayPause now s)"
  using assms by (simp add: togglePlayPause_def Let_def)

theorem sdk_toggle_commits_witness:
  "lastPlaybackCommandTime (togglePlayPause 1000000 (sdk_ready ''dev1'' (fresh\<lparr>spotifyPlayer := True\<rparr>)))
     = 1000000 \<and>
   \<not> lastPaused (togglePlayPause 1000000 (sdk_ready ''dev1'' (fresh\<lparr>spotifyPlayer := True\<rparr>))) \<and>
   ppBtnText (togglePlayPause 1000000 (sdk_ready ''dev1'' (fresh\<lparr>spotifyPlayer := True\<rparr>)))
     = PauseGlyph \<and>
   issued (togglePlayPause 1000000 (sdk_ready ''dev1'' (fresh\<lparr>spotifyPlayer := True\<rparr>)))
     = [SdkToggleCmd] \<and>
   toggleFrames (togglePlayPause 1000000 (sdk_ready ''dev1'' (fresh\<lparr>spotifyPlayer := True\<rparr>))) = [] \<and>
   step (SdkToggleDone (Inl ''Cannot perform operation; no list was loaded.''))
     (togglePlayPause 1000000 (sdk_ready ''dev1'' (fresh\<lparr>spotifyPlayer := True\<rparr>)))
     = Some (togglePlayPause 1000000 (sdk_ready ''dev1'' (fresh\<lparr>spotifyPlayer := True\<rparr>)))"
proof -
  let ?s = "sdk_ready ''dev1'' (fresh\<lparr>spotifyPlayer := True\<rparr>)"
  have h1: "spotifyPlayer ?s" by code_simp
  have h2: "truthy (sdkDeviceId ?s)" by code_simp
  have h3: "\<not> playbackCommandPending ?s" by code_simp
  have h4: "\<not> 1000000 - lastPlaybackCommandTime ?s < 500" by code_simp
  have v: "lastPaused ?s" "barLoggedIn ?s" "issued ?s = []" "toggleFrames ?s = []"
    by code_simp+
  from sdk_toggle_commits [OF h1 h2 h3 h4,
      of "Inl ''Cannot perform operation; no list was loaded.''"] v
  show ?thesis by (simp add: glyph_of_def)
qed

text \<open>
  C10, as stated, fails. The SDK player becomes ready and its status message is cleared
  after its delay; a poll finds the track paused and leaves the button on the play glyph;
  an SDK \<^verbatim>\<open>player_state_changed\<close> event reports the player playing, which sets
  \<^verbatim>\<open>lastPaused\<close> to false and leaves the button alone; the SDK device goes away.
  \<^verbatim>\<open>togglePlayPause\<close> is then invoked with \<^verbatim>\<open>lastPaused = false\<close>, takes the remote
  path, and its pause request is rejected. The rollback sets \<^verbatim>\<open>lastPaused\<close> back to
  false, but it puts the pause glyph on the button, which showed the play glyph before the
  invocation: the button text is not restored. The first tuple is the state before the
  invocation, the second the state after it has settled: \<^verbatim>\<open>lastPaused\<close>, the button, the
  text and the class of the status line, and the requests made.
\<close>

theorem failed_pause_counterexample:
  "map_option belief_button_status
     (run [InitPlayer, SdkReady ''dev1'', TimerFired 1 999000,
           PollDone 1000000 (Inr (Some paused_snapshot)),
           SdkStateChanged (Some \<lparr>current_track_id = Some ''abc'', paused = False\<rparr>),
           SdkNotReady] fresh)
     = Some (False, PlayGlyph, [], ''status ok'', []) \<and>
   map_option belief_button_status
     (run [InitPlayer, SdkReady ''dev1'', TimerFired 1 999000,
           PollDone 1000000 (Inr (Some paused_snapshot)),
           SdkStateChanged (Some \<lparr>current_track_id = Some ''abc'', paused = False\<rparr>),
           SdkNotReady,
           ToggleCall 1001000,
           ToggleDone 0 (Inl ''Server error'')] fresh)
     = Some (False, PauseGlyph, ''Server error'', ''status error'', [PauseCmd])"
  by code_simp

text \<open>
  C10, amended. While the track is believed playing, with the interpolation timer owned by
  \<^verbatim>\<open>progressTimer\<close>, an invocation of \<^verbatim>\<open>togglePlayPause\<close> passes the guards and takes the
  remote path: when it suspends, no interpolation timer is live. Whatever events \<open>es1\<close>
  happen before the request settles, the rejection of the pause request can be delivered,
  and its handling sets \<^verbatim>\<open>lastPaused\<close> back to false, sets the button, if the bar was
  there, to the pause glyph, which is its text before the invocation whenever that text
  agreed with \<^verbatim>\<open>lastPaused\<close>, and leaves the timers exactly as they were: it restarts
  nothing. If none of \<open>es1\<close> was a poll finding the track playing (\<open>restarts_clock\<close>),
  no interpolation timer is live after the rollback; none becomes live, and the
  interpolation tick emits no position, during any later events \<open>es2\<close> that are not such
  a poll; and such a poll, when it comes, starts the timer again.
\<close>

theorem failed_pause_leaves_clock_stopped:
  assumes "clock_owned s0" and "toggle_inv s0"
    and "\<not> playbackCommandPending s0" and "\<not> now - lastPlaybackCommandTime s0 < 500"
    and "\<not> (spotifyPlayer s0 \<and> truthy (sdkDeviceId s0))"
    and "\<not> lastPaused s0"
    and "run es1 (togglePlayPause now s0) = Some s1"
    and "\<forall>e\<in>set es1. \<not> is_toggle_done e"
  shows "\<not> clock_running (togglePlayPause now s0) \<and>
         (\<exists>s2. step (ToggleDone 0 (Inl msg)) s1 = Some s2 \<and>
           \<not> lastPaused s2 \<and>
           (barLoggedIn s0 \<longrightarrow> ppBtnText s2 = PauseGlyph) \<and>
           (barLoggedIn s0 \<and> ppBtnText s0 = glyph_of (lastPaused s0) \<longrightarrow>
              ppBtnText s2 = ppBtnText s0) \<and>
           timers s2 = timers s1 \<and>
           ((\<forall>e\<in>set es1. \<not> restarts_clock e) \<longrightarrow>
              \<not> clock_running s2 \<and>
              (\<forall>es2 s3. (\<forall>e\<in>set es2. \<not> restarts_clock e) \<and> run es2 s2 = Some s3 \<longrightarrow>
                 \<not> clock_running s3 \<and> emitted s3 = emitted s0 \<and>
                 (\<forall>at st. restarts_clock (PollDone at (Inr (Some st))) \<longrightarrow>
                    clock_running (pollPlaybackState at (Inr (Some st)) s3)))))"
proof -
  from assms(2,3) have empty: "toggleFrames s0 = []" by (simp add: toggle_inv_def)
  let ?f = "\<lparr>tf_now = now, tf_prevPaused = lastPaused s0, tf_ppBtn = barLoggedIn s0\<rparr>"
  let ?s = "togglePlayPause now s0"
  have p: "playbackCommandPending ?s"
    by (rule togglePlayPause_remote [OF assms(3,4,5)])
  from togglePlayPause_suspends [OF assms(3) p] empty
  have fr: "toggleFrames ?s = [?f]" by simp
  have stop0: "\<not> clock_running ?s"
    using clear_own_stops [OF assms(1)] assms(3,4,6)
    by (auto simp: togglePlayPause_def Let_def clock_running_iff split: option.splits)
  have em0: "emitted ?s = emitted s0"
    by (simp add: togglePlayPause_def Let_def)
  from suspended_run [OF fr p assms(7,8)]
  have fr1: "toggleFrames s1 = [?f]" by simp
  let ?t = "togglePlayPause_settle 0 ?f (Inl msg) s1"
  have st: "step (ToggleDone 0 (Inl msg)) s1 = Some ?t"
    using fr1 by (simp add: nth_opt_def)
  have rolled: "\<not> lastPaused ?t" "barLoggedIn s0 \<longrightarrow> ppBtnText ?t = PauseGlyph"
    "barLoggedIn s0 \<and> ppBtnText s0 = glyph_of (lastPaused s0) \<longrightarrow> ppBtnText ?t = ppBtnText s0"
    "timers ?t = timers s1"
    using assms(6) by (simp_all add: toggle_settle_fields glyph_of_def)
  have quiet: "\<not> clock_running ?t \<and>
      (\<forall>es2 s3. (\<forall>e\<in>set es2. \<not> restarts_clock e) \<and> run es2 ?t = Some s3 \<longrightarrow>
         \<not> clock_running s3 \<and> emitted s3 = emitted s0 \<and>
         (\<forall>at st. restarts_clock (PollDone at (Inr (Some st))) \<longrightarrow>
            clock_running (pollPlaybackState at (Inr (Some st)) s3)))"
    if nr: "\<forall>e\<in>set es1. \<not> restarts_clock e"
  proof -
    from stopped_run [OF stop0 nr assms(7)] em0
    have stop1: "\<not> clock_running s1" and em1: "emitted s1 = emitted s0" by simp_all
    have stop2: "\<not> clock_running ?t"
      using stop1 by (simp add: clock_running_def toggle_settle_fields)
    have "\<not> clock_running s3 \<and> emitted s3 = emitted s0 \<and>
        (\<forall>at st. restarts_clock (PollDone at (Inr (Some st))) \<longrightarrow>
           clock_running (pollPlaybackState at (Inr (Some st)) s3))"
      if "\<forall>e\<in>set es2. \<not> restarts_clock e" and "run es2 ?t = Some s3" for es2 s3
      using stopped_run [OF stop2 that] em1 playing_poll_starts_clock
      by (auto simp: toggle_settle_fields)
    with stop2 show ?thesis by blast
  qed
  from st rolled quiet stop0 show ?thesis by blast
qed

theorem failed_pause_leaves_clock_stopped_witness:
  "\<exists>s1 s2 s3. run [PollDone 1002003 (Inl ''Failed to fetch'')] (togglePlayPause 1002000 now_playing)
                = Some s1 \<and>
     \<not> clock_running (togglePlayPause 1002000 now_playing) \<and>
     step (ToggleDone 0 (Inl ''Server error'')) s1 = Some s2 \<and>
     \<not> lastPaused s2 \<and> ppBtnText s2 = PauseGlyph \<and> ppBtnText s2 = ppBtnText now_playing \<and>
     timers s2 = timers s1 \<and>
     \<not> clock_running s2 \<and>
     run [PollDone 1002500 (Inr (Some paused_snapshot)), SdkNotReady] s2 = Some s3 \<and>
     \<not> clock_running s3 \<and> emitted s3 = [] \<and>
     clock_running (pollPlaybackState 1005000 (Inr (Some playing_snapshot)) s3)"
proof -
  let ?es1 = "[PollDone 1002003 (Inl ''Failed to fetch'')]"
  let ?es2 = "[PollDone 1002500 (Inr (Some paused_snapshot)), SdkNotReady]"
  have h1: "clock_owned now_playing" by code_simp
  have h2: "toggle_inv now_playing" by code_simp
  have h3: "\<not> playbackCommandPending now_playing" by code_simp
  have h4: "\<not> 1002000 - lastPlaybackCommandTime now_playing < 500" by code_simp
  have h5: "\<not> (spotifyPlayer now_playing \<and> truthy (sdkDeviceId now_playing))" by code_simp
  have h6: "\<not> lastPaused now_playing" by code_simp
  obtain s1 where h7: "run ?es1 (togglePlayPause 1002000 now_playing) = Some s1" by simp
  have h8: "\<forall>e\<in>set ?es1. \<not> is_toggle_done e" by simp
  have h9: "\<forall>e\<in>set ?es1. \<not> restarts_clock e" by simp
  have v: "barLoggedIn now_playing" "emitted now_playing = []"
    "ppBtnText now_playing = glyph_of (lastPaused now_playing)"
    by code_simp+
  from failed_pause_leaves_clock_stopped [OF h1 h2 h3 h4 h5 h6 h7 h8, of "''Server error''"] v h9
  obtain s2 where stop0: "\<not> clock_running (togglePlayPause 1002000 now_playing)"
    and a: "step (ToggleDone 0 (Inl ''Server error'')) s1 = Some s2"
    "\<not> lastPaused s2" "ppBtnText s2 = PauseGlyph" "ppBtnText s2 = ppBtnText now_playing"
    "timers s2 = timers s1" "\<not> clock_running s2"
    and later: "\<And>es2 s3. (\<forall>e\<in>set es2. \<not> restarts_clock e) \<Longrightarrow> run es2 s2 = Some s3 \<Longrightarrow>
                 \<not> clock_running s3 \<and> emitted s3 = [] \<and>
                 (\<forall>at st. restarts_clock (PollDone at (Inr (Some st))) \<longrightarrow>
                    clock_running (pollPlaybackState at (Inr (Some st)) s3))"
    by auto
  obtain s3 where r: "run ?es2 s2 = Some s3" by simp
  have "\<forall>e\<in>set ?es2. \<not> restarts_clock e" by (simp add: paused_snapshot_def)
  from later [OF this r]
  have b: "\<not> clock_running s3" "emitted s3 = []"
    and c: "\<And>at st. restarts_clock (PollDone at (Inr (Some st))) \<Longrightarrow>
                clock_running (pollPlaybackState at (Inr (Some st)) s3)"
    by simp_all
  have "restarts_clock (PollDone 1005000 (Inr (Some playing_snapshot)))" by code_simp
  from c [OF this] stop0 a b r h7 show ?thesis by blast
qed

end
